theory Spec2Isabelle
  imports Main "HOL-Library.Sublist"
begin

section \<open>JavaScript strings\<close>

text \<open>
  A JavaScript string is a sequence of UTF-16 code units. A code unit is modelled by its
  numeric value, so that characters outside ASCII (the euro sign is the single code unit
  8364) are exactly the ones the program sees and \<open>length\<close> counts what \<open>.length\<close>
  counts. \<open>js\<close> embeds an ASCII literal.
\<close>

type_synonym code_unit = nat
type_synonym jsstring = "code_unit list"

definition js :: "string \<Rightarrow> jsstring" where
  "js s = map of_char s"

section \<open>utils: deduplicateUrls\<close>

text \<open>
  \<open>url.replace(/\/$/, "")\<close>: the pattern has no \<open>g\<close> and no \<open>m\<close> flag, so it removes
  one slash (code unit 47) at the very end of the string, if there is one.
\<close>

definition stripTrailingSlash :: "jsstring \<Rightarrow> jsstring" where
  "stripTrailingSlash url = (if url \<noteq> [] \<and> last url = 47 then butlast url else url)"

text \<open>The \<open>for (const url of urls)\<close> loop, with the set \<open>seen\<close> and the array \<open>unique\<close>.\<close>

fun dedupLoop :: "jsstring set \<Rightarrow> jsstring list \<Rightarrow> jsstring list \<Rightarrow> jsstring list" where
  "dedupLoop seen unique [] = unique"
| "dedupLoop seen unique (url # urls) =
     (let normalized = stripTrailingSlash url in
      if normalized \<notin> seen
      then dedupLoop (insert normalized seen) (unique @ [url]) urls
      else dedupLoop seen unique urls)"

definition deduplicateUrls :: "jsstring list \<Rightarrow> jsstring list" where
  "deduplicateUrls urls = dedupLoop {} [] urls"

text \<open>
  What the loop appends, as a function of the keys already seen; used only to reason
  about \<open>dedupLoop\<close>.
\<close>

fun firstsFrom :: "jsstring set \<Rightarrow> jsstring list \<Rightarrow> jsstring list" where
  "firstsFrom seen [] = []"
| "firstsFrom seen (u # us) =
     (if stripTrailingSlash u \<in> seen then firstsFrom seen us
      else u # firstsFrom (insert (stripTrailingSlash u) seen) us)"

lemma dedupLoop_firstsFrom: "dedupLoop seen unique urls = unique @ firstsFrom seen urls"
  by (induction urls arbitrary: seen unique) (simp_all add: Let_def)

lemma deduplicateUrls_firstsFrom: "deduplicateUrls urls = firstsFrom {} urls"
  by (simp add: deduplicateUrls_def dedupLoop_firstsFrom)

lemma firstsFrom_length: "length (firstsFrom seen us) \<le> length us"
  by (induction us arbitrary: seen) (auto intro: le_SucI)

lemma firstsFrom_subseq: "subseq (firstsFrom seen us) us"
  by (induction us arbitrary: seen) auto

lemma firstsFrom_keys:
  "stripTrailingSlash ` set (firstsFrom seen us) = stripTrailingSlash ` set us - seen"
  by (induction us arbitrary: seen) auto

lemma firstsFrom_distinct: "distinct (map stripTrailingSlash (firstsFrom seen us))"
proof (induction us arbitrary: seen)
  case Nil
  show ?case by simp
next
  case (Cons u us)
  have "stripTrailingSlash u
          \<notin> stripTrailingSlash ` set (firstsFrom (insert (stripTrailingSlash u) seen) us)"
    by (simp add: firstsFrom_keys)
  with Cons show ?case by simp
qed

lemma firstsFrom_first:
  "w \<in> set (firstsFrom seen us) \<Longrightarrow>
   find (\<lambda>v. stripTrailingSlash v = stripTrailingSlash w) us = Some w"
proof (induction us arbitrary: seen)
  case Nil
  then show ?case by simp
next
  case (Cons u us)
  show ?case
  proof (cases "stripTrailingSlash u \<in> seen")
    case True
    with Cons.prems have w: "w \<in> set (firstsFrom seen us)" by simp
    then have "stripTrailingSlash w \<in> stripTrailingSlash ` set us - seen"
      using firstsFrom_keys by blast
    with True have "stripTrailingSlash u \<noteq> stripTrailingSlash w" by auto
    with Cons.IH [OF w] show ?thesis by simp
  next
    case False
    show ?thesis
    proof (cases "w = u")
      case True
      then show ?thesis by simp
    next
      case neq: False
      with False Cons.prems
      have w: "w \<in> set (firstsFrom (insert (stripTrailingSlash u) seen) us)" by simp
      then have "stripTrailingSlash w
                   \<in> stripTrailingSlash ` set us - insert (stripTrailingSlash u) seen"
        using firstsFrom_keys by blast
      then have "stripTrailingSlash u \<noteq> stripTrailingSlash w" by auto
      with Cons.IH [OF w] show ?thesis by simp
    qed
  qed
qed

lemma firstsFrom_fixed:
  "distinct (map stripTrailingSlash xs) \<Longrightarrow> stripTrailingSlash ` set xs \<inter> seen = {} \<Longrightarrow>
   firstsFrom seen xs = xs"
  by (induction xs arbitrary: seen) auto

text \<open>
  C6. For every URL list, the output of \<open>deduplicateUrls\<close> is no longer than the input,
  is a subsequence of it, holds every key (the URL without one trailing slash) of the
  input exactly once, each output element being the first input element with its key,
  kept as the original string; and \<open>deduplicateUrls\<close> applied to its own output returns
  that output.
\<close>

theorem deduplicateUrls_first_occurrences:
  "length (deduplicateUrls urls) \<le> length urls \<and>
   subseq (deduplicateUrls urls) urls \<and>
   distinct (map stripTrailingSlash (deduplicateUrls urls)) \<and>
   stripTrailingSlash ` set (deduplicateUrls urls) = stripTrailingSlash ` set urls \<and>
   (\<forall>w \<in> set (deduplicateUrls urls).
      find (\<lambda>v. stripTrailingSlash v = stripTrailingSlash w) urls = Some w) \<and>
   deduplicateUrls (deduplicateUrls urls) = deduplicateUrls urls"
proof -
  have "firstsFrom {} (firstsFrom {} urls) = firstsFrom {} urls"
    by (rule firstsFrom_fixed) (simp_all add: firstsFrom_distinct)
  then show ?thesis
    by (simp add: deduplicateUrls_firstsFrom firstsFrom_length firstsFrom_subseq
        firstsFrom_distinct firstsFrom_keys firstsFrom_first)
qed

text \<open>
  The theorem at a list with a trailing-slash variant of an earlier URL, a URL with two
  trailing slashes (a different key) and a plain repetition.
\<close>

theorem deduplicateUrls_first_occurrences_witness:
  "deduplicateUrls [js ''a/'', js ''a'', js ''b'', js ''a//'', js ''b''] =
     [js ''a/'', js ''b'', js ''a//''] \<and>
   find (\<lambda>v. stripTrailingSlash v = stripTrailingSlash (js ''a/''))
     [js ''a/'', js ''a'', js ''b'', js ''a//'', js ''b''] = Some (js ''a/'') \<and>
   find (\<lambda>v. stripTrailingSlash v = stripTrailingSlash (js ''a//''))
     [js ''a/'', js ''a'', js ''b'', js ''a//'', js ''b''] = Some (js ''a//'') \<and>
   deduplicateUrls (deduplicateUrls [js ''a/'', js ''a'', js ''b'', js ''a//'', js ''b'']) =
     deduplicateUrls [js ''a/'', js ''a'', js ''b'', js ''a//'', js ''b'']"
proof -
  have out: "deduplicateUrls [js ''a/'', js ''a'', js ''b'', js ''a//'', js ''b''] =
          [js ''a/'', js ''b'', js ''a//'']"
    by (simp add: deduplicateUrls_def js_def stripTrailingSlash_def)
  have "js ''a/'' \<in> set (deduplicateUrls [js ''a/'', js ''a'', js ''b'', js ''a//'', js ''b''])"
    and "js ''a//'' \<in> set (deduplicateUrls [js ''a/'', js ''a'', js ''b'', js ''a//'', js ''b''])"
    by (simp_all add: out)
  with out deduplicateUrls_first_occurrences
         [of "[js ''a/'', js ''a'', js ''b'', js ''a//'', js ''b'']"]
  show ?thesis by blast
qed

section \<open>utils: withRetry\<close>

text \<open>
  The operation passed to \<open>withRetry\<close> is effectful and may throw: it is a function from
  the state of the world to an outcome (\<open>Inl\<close> the thrown value, \<open>Inr\<close> the value the
  promise resolves to) and the next state. \<open>sleep\<close> is the effect of \<open>sleep(ms)\<close> on the
  world. The state after \<open>withRetry\<close> tells how often the operation ran.
\<close>

definition withRetry ::
  "(nat \<Rightarrow> 's \<Rightarrow> 's) \<Rightarrow> ('s \<Rightarrow> ('e + 'a) \<times> 's) \<Rightarrow> 's \<Rightarrow> ('e + 'a) \<times> 's" where
  "withRetry sleep fn s =
     (case fn s of
        (Inr v, s1) \<Rightarrow> (Inr v, s1)
      | (Inl firstError, s1) \<Rightarrow>
          (case fn (sleep 1000 s1) of
             (Inr v, s2) \<Rightarrow> (Inr v, s2)
           | (Inl secondError, s2) \<Rightarrow> (Inl firstError, s2)))"

text \<open>
  C3. If the first call succeeds, \<open>withRetry\<close> returns its result and the world is the one
  left by that single call. If the first call fails, the operation runs once more, in the
  world left by the first call and a sleep of 1000 ms, and never a third time; if the
  second call succeeds its result is returned, and if it fails too the error of the first
  call is the one propagated.
\<close>

theorem withRetry_single_retry_first_error:
  "(fn s = (Inr v, s1) \<longrightarrow> withRetry sleep fn s = (Inr v, s1)) \<and>
   (fn s = (Inl e1, s1) \<and> fn (sleep 1000 s1) = (Inr v, s2) \<longrightarrow>
      withRetry sleep fn s = (Inr v, s2)) \<and>
   (fn s = (Inl e1, s1) \<and> fn (sleep 1000 s1) = (Inl e2, s2) \<longrightarrow>
      withRetry sleep fn s = (Inl e1, s2))"
  by (simp add: withRetry_def)

text \<open>
  A world that counts the calls made and the milliseconds slept, and an operation that
  fails on each call with the number of that call as its error: \<open>withRetry\<close> makes two
  calls, sleeps 1000 ms and fails with error 1, the first one.
\<close>

definition countingFailure :: "nat \<times> nat \<Rightarrow> (nat + unit) \<times> (nat \<times> nat)" where
  "countingFailure s = (Inl (Suc (fst s)), (Suc (fst s), snd s))"

definition sleepCounted :: "nat \<Rightarrow> nat \<times> nat \<Rightarrow> nat \<times> nat" where
  "sleepCounted ms s = (fst s, snd s + ms)"

theorem withRetry_single_retry_first_error_witness:
  "countingFailure (0, 0) = (Inl 1, (1, 0)) \<and>
   countingFailure (sleepCounted 1000 (1, 0)) = (Inl 2, (2, 1000)) \<and>
   withRetry sleepCounted countingFailure (0, 0) = (Inl 1, (2, 1000))"
  using withRetry_single_retry_first_error
          [of countingFailure "(0, 0)" undefined "(1, 0)" sleepCounted 1 "(2, 1000)" 2]
  by (simp add: countingFailure_def sleepCounted_def)

section \<open>String operations of the platform\<close>

text \<open>
  \<open>\s\<close> in a regular expression and \<open>trim\<close> use the same set: the WhiteSpace and
  LineTerminator code units of ECMAScript. \<open>\d\<close> is the ASCII digits.
\<close>

definition isWhiteSpace :: "code_unit \<Rightarrow> bool" where
  "isWhiteSpace c \<longleftrightarrow>
     c \<in> {9, 10, 11, 12, 13, 32, 160, 5760, 8232, 8233, 8239, 8287, 12288, 65279}
     \<or> (8192 \<le> c \<and> c \<le> 8202)"

definition isDigit :: "code_unit \<Rightarrow> bool" where
  "isDigit c \<longleftrightarrow> 48 \<le> c \<and> c \<le> 57"

definition trim :: "jsstring \<Rightarrow> jsstring" where
  "trim s = rev (dropWhile isWhiteSpace (rev (dropWhile isWhiteSpace s)))"

definition startsWith :: "jsstring \<Rightarrow> jsstring \<Rightarrow> bool" where
  "startsWith s p = prefix p s"

text \<open>\<open>s.includes(needle)\<close>, and a regular expression without anchors tested at every start.\<close>

fun anySuffix :: "(jsstring \<Rightarrow> bool) \<Rightarrow> jsstring \<Rightarrow> bool" where
  "anySuffix P [] = P []"
| "anySuffix P (c # cs) = (P (c # cs) \<or> anySuffix P cs)"

definition includesStr :: "jsstring \<Rightarrow> jsstring \<Rightarrow> bool" where
  "includesStr s needle = anySuffix (prefix needle) s"

text \<open>
  \<open>toLowerCase\<close> on the ASCII letters, and on the two code units outside ASCII whose lower
  case contains an ASCII letter (the Kelvin sign 8490 and the dotted capital I 304); the
  other letters outside ASCII are left as they are, and the program compares the result
  with ASCII constants only.
\<close>

definition lowerUnit :: "code_unit \<Rightarrow> jsstring" where
  "lowerUnit c =
     (if 65 \<le> c \<and> c \<le> 90 then [c + 32]
      else if c = 8490 then [107]
      else if c = 304 then [105, 775]
      else [c])"

definition toLowerCase :: "jsstring \<Rightarrow> jsstring" where
  "toLowerCase s = concat (map lowerUnit s)"

text \<open>The \<open>i\<close> flag of a regular expression: code units outside ASCII match only themselves.\<close>

definition foldCase :: "code_unit \<Rightarrow> code_unit" where
  "foldCase c = (if 65 \<le> c \<and> c \<le> 90 then c + 32 else c)"

section \<open>JSON values\<close>

text \<open>
  What \<open>JSON.parse\<close> returns. A number carries the string that \<open>String\<close> renders it as
  (never empty; \<open>0\<close> for both zeros); an object carries its own properties, one entry per
  key. \<open>undefined\<close> and \<open>null\<close> are both \<open>None\<close> where the program reads a property: it
  only applies \<open>??\<close> and truthiness to the result.
\<close>

datatype json =
    JNull
  | JBool bool
  | JNum jsstring
  | JStr jsstring
  | JArr "json list"
  | JObj "(jsstring \<times> json) list"

fun truthy :: "json \<Rightarrow> bool" where
  "truthy JNull = False"
| "truthy (JBool b) = b"
| "truthy (JNum r) = (r \<noteq> js ''0'')"
| "truthy (JStr s) = (s \<noteq> [])"
| "truthy (JArr xs) = True"
| "truthy (JObj kvs) = True"

text \<open>\<open>v[key]\<close> for a key that no prototype defines, followed by \<open>??\<close>: \<open>None\<close> is nullish.\<close>

fun getProp :: "json \<Rightarrow> jsstring \<Rightarrow> json option" where
  "getProp (JObj kvs) key = (case map_of kvs key of Some JNull \<Rightarrow> None | r \<Rightarrow> r)"
| "getProp v key = None"

fun joinWith :: "jsstring \<Rightarrow> jsstring list \<Rightarrow> jsstring" where
  "joinWith sep [] = []"
| "joinWith sep [x] = x"
| "joinWith sep (x # y # ys) = x @ sep @ joinWith sep (y # ys)"

text \<open>\<open>String(v)\<close>; an array joins its elements with a comma, \<open>null\<close> elements being empty.\<close>

fun jsString :: "json \<Rightarrow> jsstring" where
  "jsString JNull = js ''null''"
| "jsString (JBool b) = (if b then js ''true'' else js ''false'')"
| "jsString (JNum r) = r"
| "jsString (JStr s) = s"
| "jsString (JArr xs) =
     joinWith (js '','') (map (\<lambda>x. if x = JNull then [] else jsString x) xs)"
| "jsString (JObj kvs) = js ''[object Object]''"

section \<open>crawler: classifyPage\<close>

datatype page_type = Article | Category | Product | Gallery | Page

text \<open>
  \<open>new URL(s)\<close> belongs to the platform: the program only reads \<open>hostname\<close>, \<open>pathname\<close> and
  \<open>origin\<close> of the result, and the constructor throws on a string that is not an absolute
  URL. The parser is a parameter of the functions that call it.
\<close>

record parsed_url =
  hostname :: jsstring
  pathname :: jsstring
  origin :: jsstring

datatype js_error =
    AxiosError "jsstring option" "jsstring option" "(nat \<times> jsstring) option" jsstring
  | Error jsstring
  | Thrown jsstring

type_synonym url_parser = "jsstring \<Rightarrow> js_error + parsed_url"

text \<open>\<open>/\/a\/\d+\//\<close> at one start position: the digits are taken greedily, then a slash.\<close>

definition articleAt :: "jsstring \<Rightarrow> bool" where
  "articleAt s \<longleftrightarrow>
     prefix (js ''/a/'') s \<and> takeWhile isDigit (drop 3 s) \<noteq> [] \<and>
     prefix (js ''/'') (dropWhile isDigit (drop 3 s))"

definition classifyPage :: "url_parser \<Rightarrow> jsstring \<Rightarrow> json option \<Rightarrow> js_error + page_type" where
  "classifyPage parseUrl u jsonLd =
     (case parseUrl u of
        Inl err \<Rightarrow> Inl err
      | Inr parsed \<Rightarrow>
          (let path = pathname parsed in
           if anySuffix articleAt path then Inr Article
           else if includesStr path (js ''/c/'') \<or> includesStr path (js ''/choose-'') then Inr Category
           else if includesStr path (js ''/p/'') then Inr Product
           else if includesStr (map foldCase path) (js ''gallery'') then Inr Gallery
           else
             (case jsonLd of
                None \<Rightarrow> Inr Page
              | Some j \<Rightarrow>
                  if truthy j then
                    (let ldType = toLowerCase
                           (case getProp j (js ''@type'') of None \<Rightarrow> [] | Some t \<Rightarrow> jsString t)
                     in if ldType = js ''product'' then Inr Product
                        else if ldType = js ''article'' \<or> ldType = js ''newsarticle''
                                \<or> ldType = js ''blogposting'' then Inr Article
                        else Inr Page)
                  else Inr Page)))"

text \<open>
  The lower-cased \<open>@type\<close> that the fallback compares, empty when there is no JSON-LD object.
\<close>

definition schemaType :: "json option \<Rightarrow> jsstring" where
  "schemaType jsonLd =
     (case jsonLd of
        None \<Rightarrow> []
      | Some j \<Rightarrow>
          if truthy j
          then toLowerCase (case getProp j (js ''@type'') of None \<Rightarrow> [] | Some t \<Rightarrow> jsString t)
          else [])"

text \<open>
  The path shapes as the specification words them: the path has \<open>/a/\<close>, one or more
  digits and a slash somewhere in it; a given string somewhere in it; the word gallery in
  any mix of upper and lower case somewhere in it.
\<close>

definition containsStr :: "jsstring \<Rightarrow> jsstring \<Rightarrow> bool" where
  "containsStr s needle \<longleftrightarrow> (\<exists>pre post. s = pre @ needle @ post)"

definition hasArticleShape :: "jsstring \<Rightarrow> bool" where
  "hasArticleShape path \<longleftrightarrow>
     (\<exists>pre ds post. path = pre @ js ''/a/'' @ ds @ js ''/'' @ post \<and> ds \<noteq> [] \<and>
        (\<forall>d \<in> set ds. isDigit d))"

definition hasGalleryKeyword :: "jsstring \<Rightarrow> bool" where
  "hasGalleryKeyword path \<longleftrightarrow>
     (\<exists>pre mid post. path = pre @ mid @ post \<and> map foldCase mid = js ''gallery'')"

lemma anySuffix_iff: "anySuffix P s \<longleftrightarrow> (\<exists>pre suf. s = pre @ suf \<and> P suf)"
proof (induction s)
  case Nil
  show ?case by simp
next
  case (Cons c cs)
  show ?case
  proof
    assume "anySuffix P (c # cs)"
    then consider "P (c # cs)" | "anySuffix P cs" by auto
    then show "\<exists>pre suf. c # cs = pre @ suf \<and> P suf"
    proof cases
      case 1
      then have "c # cs = [] @ (c # cs) \<and> P (c # cs)" by simp
      then show ?thesis by blast
    next
      case 2
      with Cons obtain pre suf where "cs = pre @ suf" "P suf" by blast
      then have "c # cs = (c # pre) @ suf \<and> P suf" by simp
      then show ?thesis by blast
    qed
  next
    assume "\<exists>pre suf. c # cs = pre @ suf \<and> P suf"
    then obtain pre suf where ps: "c # cs = pre @ suf" "P suf" by blast
    show "anySuffix P (c # cs)"
    proof (cases pre)
      case Nil
      with ps have "P (c # cs)" by simp
      then show ?thesis by simp
    next
      case (Cons a pre')
      with ps have "cs = pre' @ suf" by simp
      with ps Cons.IH show ?thesis by auto
    qed
  qed
qed

lemma includesStr_iff: "includesStr s needle \<longleftrightarrow> containsStr s needle"
  by (auto simp: includesStr_def containsStr_def anySuffix_iff prefix_def)

lemma not_isDigit_slash: "\<not> isDigit 47"
  by (simp add: isDigit_def)

lemma articleAt_iff:
  "articleAt s \<longleftrightarrow>
     (\<exists>ds post. s = js ''/a/'' @ ds @ js ''/'' @ post \<and> ds \<noteq> [] \<and> (\<forall>d \<in> set ds. isDigit d))"
proof
  assume a: "articleAt s"
  then obtain r where r: "s = js ''/a/'' @ r"
    by (auto simp: articleAt_def prefix_def)
  then have d: "drop 3 s = r" by (simp add: js_def)
  from a d obtain post where post: "dropWhile isDigit r = js ''/'' @ post"
    by (auto simp: articleAt_def prefix_def)
  have "r = takeWhile isDigit r @ dropWhile isDigit r" by simp
  with post have "r = takeWhile isDigit r @ js ''/'' @ post" by simp
  with r have "s = js ''/a/'' @ takeWhile isDigit r @ js ''/'' @ post" by simp
  moreover from a d have "takeWhile isDigit r \<noteq> []" by (simp add: articleAt_def)
  moreover have "\<forall>d \<in> set (takeWhile isDigit r). isDigit d"
    by (auto dest: set_takeWhileD)
  ultimately show "\<exists>ds post. s = js ''/a/'' @ ds @ js ''/'' @ post \<and> ds \<noteq> [] \<and>
      (\<forall>d \<in> set ds. isDigit d)" by blast
next
  assume "\<exists>ds post. s = js ''/a/'' @ ds @ js ''/'' @ post \<and> ds \<noteq> [] \<and> (\<forall>d \<in> set ds. isDigit d)"
  then obtain ds post where s: "s = js ''/a/'' @ ds @ js ''/'' @ post" and ne: "ds \<noteq> []"
    and dg: "\<forall>d \<in> set ds. isDigit d" by blast
  have d: "drop 3 s = ds @ 47 # post" by (simp add: s js_def)
  have t: "takeWhile isDigit (ds @ 47 # post) = ds"
    using dg by (simp add: takeWhile_append2 not_isDigit_slash)
  have w: "dropWhile isDigit (ds @ 47 # post) = 47 # post"
    using dg by (simp add: dropWhile_append2 not_isDigit_slash)
  show "articleAt s"
    unfolding articleAt_def d t w using ne by (simp add: s js_def)
qed

lemma anySuffix_articleAt: "anySuffix articleAt path \<longleftrightarrow> hasArticleShape path"
proof
  assume "anySuffix articleAt path"
  then obtain pre ds post where "path = pre @ js ''/a/'' @ ds @ js ''/'' @ post"
    "ds \<noteq> []" "\<forall>d \<in> set ds. isDigit d"
    unfolding anySuffix_iff articleAt_iff by blast
  then show "hasArticleShape path" unfolding hasArticleShape_def by blast
next
  assume "hasArticleShape path"
  then obtain pre ds post where p: "path = pre @ js ''/a/'' @ ds @ js ''/'' @ post"
    and "ds \<noteq> []" "\<forall>d \<in> set ds. isDigit d"
    unfolding hasArticleShape_def by blast
  then have "articleAt (js ''/a/'' @ ds @ js ''/'' @ post)"
    unfolding articleAt_iff by blast
  with p show "anySuffix articleAt path" unfolding anySuffix_iff by blast
qed

lemma gallery_iff: "includesStr (map foldCase path) (js ''gallery'') \<longleftrightarrow> hasGalleryKeyword path"
proof
  assume "includesStr (map foldCase path) (js ''gallery'')"
  then obtain a b where "map foldCase path = a @ js ''gallery'' @ b"
    unfolding includesStr_iff containsStr_def by blast
  then have "\<exists>us vs. path = us @ vs \<and> a = map foldCase us \<and>
      js ''gallery'' @ b = map foldCase vs"
    by (simp add: map_eq_append_conv)
  then obtain pre rest where p1: "path = pre @ rest"
    and r: "js ''gallery'' @ b = map foldCase rest" by blast
  from r have "\<exists>us vs. rest = us @ vs \<and> js ''gallery'' = map foldCase us \<and> b = map foldCase vs"
    by (simp add: append_eq_map_conv)
  then obtain mid post where "rest = mid @ post" "map foldCase mid = js ''gallery''"
    by auto
  with p1 show "hasGalleryKeyword path" unfolding hasGalleryKeyword_def by blast
next
  assume "hasGalleryKeyword path"
  then obtain pre mid post where "path = pre @ mid @ post" "map foldCase mid = js ''gallery''"
    unfolding hasGalleryKeyword_def by blast
  then have "map foldCase path = map foldCase pre @ js ''gallery'' @ map foldCase post" by simp
  then show "includesStr (map foldCase path) (js ''gallery'')"
    unfolding includesStr_iff containsStr_def by blast
qed


text \<open>
  C8. For a URL that parses, \<open>classifyPage\<close> decides by the path first, in the order
  article shape, category shape, product shape, gallery keyword, the first match winning
  whatever the JSON-LD says; only when no path pattern matches does the lower-cased
  JSON-LD \<open>@type\<close> decide (product; article, newsarticle or blogposting as article), and
  the result is page otherwise.
\<close>

theorem classifyPage_priority:
  assumes "parseUrl u = Inr parsed"
  shows "classifyPage parseUrl u jsonLd = Inr
     (if hasArticleShape (pathname parsed) then Article
      else if containsStr (pathname parsed) (js ''/c/'')
              \<or> containsStr (pathname parsed) (js ''/choose-'') then Category
      else if containsStr (pathname parsed) (js ''/p/'') then Product
      else if hasGalleryKeyword (pathname parsed) then Gallery
      else if schemaType jsonLd = js ''product'' then Product
      else if schemaType jsonLd = js ''article'' \<or> schemaType jsonLd = js ''newsarticle''
              \<or> schemaType jsonLd = js ''blogposting'' then Article
      else Page)"
proof -
  have empty: "[] \<noteq> js ''product''" "[] \<noteq> js ''article''" "[] \<noteq> js ''newsarticle''"
    "[] \<noteq> js ''blogposting''"
    by (simp_all add: js_def)
  have lower: "toLowerCase [] = []"
    by (simp add: toLowerCase_def)
  show ?thesis
    unfolding classifyPage_def schemaType_def gallery_iff anySuffix_articleAt
    unfolding includesStr_iff
    using assms empty lower
    by (simp add: Let_def split: option.split)
qed

text \<open>
  The three vectors of the specification: the path \<open>/a/42/some-slug\<close> with a JSON-LD type
  Product is an article; the path \<open>/about\<close> with that JSON-LD is a product; the path
  \<open>/about\<close> without JSON-LD is a page.
\<close>

definition parsedAs :: "jsstring \<Rightarrow> url_parser" where
  "parsedAs path u =
     Inr \<lparr>hostname = js ''example.com'', pathname = path, origin = js ''https://example.com''\<rparr>"

theorem classifyPage_priority_witness:
  "classifyPage (parsedAs (js ''/a/42/some-slug'')) (js ''https://example.com/a/42/some-slug'')
     (Some (JObj [(js ''@type'', JStr (js ''Product''))])) = Inr Article \<and>
   classifyPage (parsedAs (js ''/about'')) (js ''https://example.com/about'')
     (Some (JObj [(js ''@type'', JStr (js ''Product''))])) = Inr Product \<and>
   classifyPage (parsedAs (js ''/about'')) (js ''https://example.com/about'') None = Inr Page"
proof -
  have a: "hasArticleShape (js ''/a/42/some-slug'')"
    unfolding anySuffix_articleAt [symmetric] by (simp add: articleAt_def js_def isDigit_def)
  have b: "\<not> hasArticleShape (js ''/about'')"
    unfolding anySuffix_articleAt [symmetric] by (simp add: articleAt_def js_def isDigit_def)
  have c: "\<not> containsStr (js ''/about'') (js ''/c/'')"
    "\<not> containsStr (js ''/about'') (js ''/choose-'')"
    "\<not> containsStr (js ''/about'') (js ''/p/'')"
    unfolding includesStr_iff [symmetric] by (simp_all add: includesStr_def js_def)
  have d: "\<not> hasGalleryKeyword (js ''/about'')"
    unfolding gallery_iff [symmetric] by (simp add: includesStr_def js_def foldCase_def)
  have e: "schemaType (Some (JObj [(js ''@type'', JStr (js ''Product''))])) = js ''product''"
    by (simp add: schemaType_def js_def toLowerCase_def lowerUnit_def)
  have f: "schemaType None = []" by (simp add: schemaType_def)
  have g: "[] \<noteq> js ''product''" "[] \<noteq> js ''article''" "[] \<noteq> js ''newsarticle''"
    "[] \<noteq> js ''blogposting''"
    by (simp_all add: js_def)
  show ?thesis
    using classifyPage_priority [of "parsedAs (js ''/a/42/some-slug'')"
            "js ''https://example.com/a/42/some-slug''" _
            "Some (JObj [(js ''@type'', JStr (js ''Product''))])"]
          classifyPage_priority [of "parsedAs (js ''/about'')"
            "js ''https://example.com/about''" _
            "Some (JObj [(js ''@type'', JStr (js ''Product''))])"]
          classifyPage_priority [of "parsedAs (js ''/about'')"
            "js ''https://example.com/about''" _ None]
    by (simp add: parsedAs_def a b c d e f g)
qed

section \<open>The cheerio interface\<close>

text \<open>
  cheerio is a library: the program reaches the document only through selector queries.
  The interface is a parameter, over any type \<open>'d\<close> of documents and \<open>'e\<close> of elements:
  \<open>select\<close> is \<open>$(sel)\<close> (the matches in document order), \<open>removeSel\<close> is
  \<open>$(sel).remove()\<close>, which changes the document, \<open>findIn\<close> is \<open>$(el).find(sel)\<close>,
  \<open>cloneWithout\<close> is \<open>clone()\<close> followed by \<open>find(sel).remove()\<close> on the clone, and
  \<open>textOf\<close>, \<open>htmlOf\<close>, \<open>attrOf\<close> are \<open>text()\<close>, \<open>html()\<close> (which may be \<open>null\<close>) and
  \<open>attr(name)\<close> (which may be \<open>undefined\<close>) of one element.
\<close>

record ('d, 'e) cheerio =
  loadHtml :: "jsstring \<Rightarrow> 'd"
  select :: "string \<Rightarrow> 'd \<Rightarrow> 'e list"
  removeSel :: "string \<Rightarrow> 'd \<Rightarrow> 'd"
  findIn :: "string \<Rightarrow> 'e \<Rightarrow> 'e list"
  cloneWithout :: "string \<Rightarrow> 'e \<Rightarrow> 'e"
  textOf :: "'e \<Rightarrow> jsstring"
  htmlOf :: "'e \<Rightarrow> jsstring option"
  attrOf :: "string \<Rightarrow> 'e \<Rightarrow> jsstring option"

text \<open>\<open>$(sel).first().text()\<close>: the empty string when nothing matches.\<close>

definition firstText :: "('d, 'e) cheerio \<Rightarrow> string \<Rightarrow> 'd \<Rightarrow> jsstring" where
  "firstText ch sel d = (case select ch sel d of [] \<Rightarrow> [] | e # es \<Rightarrow> textOf ch e)"

text \<open>\<open>$(sel).text()\<close>: the texts of all matches, concatenated.\<close>

definition allText :: "('d, 'e) cheerio \<Rightarrow> string \<Rightarrow> 'd \<Rightarrow> jsstring" where
  "allText ch sel d = concat (map (textOf ch) (select ch sel d))"

text \<open>\<open>$(sel).attr(name)\<close>: the attribute of the first match.\<close>

definition firstAttr :: "('d, 'e) cheerio \<Rightarrow> string \<Rightarrow> string \<Rightarrow> 'd \<Rightarrow> jsstring option" where
  "firstAttr ch sel name d = (case select ch sel d of [] \<Rightarrow> None | e # es \<Rightarrow> attrOf ch name e)"

text \<open>\<open>a ?? b\<close> on values that may be \<open>null\<close> or \<open>undefined\<close>.\<close>

definition nullish :: "'a option \<Rightarrow> 'a option \<Rightarrow> 'a option" where
  "nullish a b = (case a of None \<Rightarrow> b | Some v \<Rightarrow> Some v)"

section \<open>Whitespace: collapsing and splitting\<close>

text \<open>\<open>text.replace(/\s+/g, " ")\<close>: every maximal run of white space becomes one space.\<close>

function collapseWs :: "jsstring \<Rightarrow> jsstring" where
  "collapseWs [] = []"
| "collapseWs (c # cs) =
     (if isWhiteSpace c then 32 # collapseWs (dropWhile isWhiteSpace cs)
      else c # collapseWs cs)"
  by pat_completeness auto
termination
  by (relation "measure length") (auto simp: less_Suc_eq_le length_dropWhile_le)

text \<open>
  \<open>s.split(/\s+/)\<close>: the pieces between the maximal runs of white space, an empty piece
  before a leading run and after a trailing one; the empty string gives one empty piece.
\<close>

function splitFrom :: "jsstring \<Rightarrow> jsstring \<Rightarrow> jsstring list" where
  "splitFrom cur [] = [cur]"
| "splitFrom cur (c # cs) =
     (if isWhiteSpace c then cur # splitFrom [] (dropWhile isWhiteSpace cs)
      else splitFrom (cur @ [c]) cs)"
  by pat_completeness auto
termination
  by (relation "measure (\<lambda>(cur, s). length s)") (auto simp: less_Suc_eq_le length_dropWhile_le)

definition splitWs :: "jsstring \<Rightarrow> jsstring list" where
  "splitWs s = splitFrom [] s"

text \<open>The decimal digits of a non-negative integer, as \<open>String\<close> renders it.\<close>

function decimal :: "int \<Rightarrow> jsstring" where
  "decimal n = (if n < 10 then [nat (48 + n)] else decimal (n div 10) @ [nat (48 + n mod 10)])"
  by pat_completeness auto
termination
  by (relation "measure nat") auto

declare decimal.simps [simp del]

section \<open>crawler: extraction from a generic page\<close>

definition CONTENT_SELECTORS :: "string list" where
  "CONTENT_SELECTORS = [''main'', ''article'', ''.main-content'', ''.content'', ''#content'',
     ''.page-content'']"

text \<open>
  The loop over \<open>CONTENT_SELECTORS\<close>: the text of the first selector that matches an
  element, even when that text is empty; the empty string when none matches.
\<close>

fun firstContainerText :: "('d, 'e) cheerio \<Rightarrow> 'd \<Rightarrow> string list \<Rightarrow> jsstring" where
  "firstContainerText ch d [] = []"
| "firstContainerText ch d (sel # sels) =
     (case select ch sel d of
        [] \<Rightarrow> firstContainerText ch d sels
      | el # els \<Rightarrow> textOf ch el)"

text \<open>
  The text that \<open>extractContent\<close> cleans, read from the document without its noise
  elements: the container's text, or the body's when that is empty.
\<close>

definition selectedText :: "('d, 'e) cheerio \<Rightarrow> 'd \<Rightarrow> jsstring" where
  "selectedText ch d =
     (let text = firstContainerText ch d CONTENT_SELECTORS
      in if text = [] then firstText ch ''body'' d else text)"

text \<open>
  \<open>extractContent\<close> removes the noise elements from the document it is given, so it
  returns the changed document with the content.
\<close>

definition extractContent :: "('d, 'e) cheerio \<Rightarrow> 'd \<Rightarrow> jsstring \<times> 'd" where
  "extractContent ch d0 =
     (let d = removeSel ch ''script, style, noscript, iframe, svg, nav, header, footer'' d0;
          raw = trim (collapseWs (selectedText ch d))
      in (take 2000 raw, d))"

text \<open>
  \<open>new URL(src, base).href\<close>, \<open>JSON.parse\<close> and \<open>JSON.stringify\<close> belong to the platform
  and are parameters, like \<open>new URL(s)\<close>.
\<close>

record platform =
  parseUrl :: url_parser
  resolveHref :: "jsstring \<Rightarrow> jsstring \<Rightarrow> js_error + jsstring"
  jsonParse :: "jsstring \<Rightarrow> js_error + json"
  jsonStringify :: "json \<Rightarrow> jsstring"

definition extractImages ::
  "('d, 'e) cheerio \<Rightarrow> platform \<Rightarrow> 'd \<Rightarrow> parsed_url \<Rightarrow> jsstring list" where
  "extractImages ch pf d baseUrl =
     concat (map (\<lambda>el.
         case attrOf ch ''src'' el of
           None \<Rightarrow> []
         | Some src \<Rightarrow>
             if src = [] then []
             else (case resolveHref pf src (origin baseUrl) of
                     Inl err \<Rightarrow> []
                   | Inr href \<Rightarrow> [href]))
       (select ch ''img[src]'' d))"

text \<open>
  The callback of \<open>$("a[href]").each\<close> in \<open>extractLinks\<close>, on the pair of \<open>internal\<close> and
  \<open>externalCount\<close>.
\<close>

definition linkStep ::
  "url_parser \<Rightarrow> jsstring \<Rightarrow> jsstring list \<times> nat \<Rightarrow> jsstring \<Rightarrow> jsstring list \<times> nat" where
  "linkStep parse baseHost acc href =
     (if href = [] \<or> startsWith href (js ''#'') \<or> startsWith href (js ''mailto:'')
         \<or> startsWith href (js ''tel:'')
      then acc
      else if startsWith href (js ''/'') \<and> \<not> startsWith href (js ''//'')
      then (fst acc @ [href], snd acc)
      else (case parse href of
              Inl err \<Rightarrow> acc
            | Inr link \<Rightarrow>
                if hostname link = baseHost then (fst acc @ [href], snd acc)
                else (fst acc, snd acc + 1)))"

text \<open>The \<open>href\<close> values that \<open>extractLinks\<close> visits, \<open>attr("href") ?? ""\<close> of each anchor.\<close>

definition anchorHrefs :: "('d, 'e) cheerio \<Rightarrow> 'd \<Rightarrow> jsstring list" where
  "anchorHrefs ch d =
     map (\<lambda>el. case attrOf ch ''href'' el of None \<Rightarrow> [] | Some href \<Rightarrow> href)
       (select ch ''a[href]'' d)"

definition extractLinks ::
  "('d, 'e) cheerio \<Rightarrow> platform \<Rightarrow> 'd \<Rightarrow> jsstring \<Rightarrow> jsstring list \<times> nat" where
  "extractLinks ch pf d baseHost =
     foldl (linkStep (parseUrl pf) baseHost) ([], 0) (anchorHrefs ch d)"

definition extractJsonLd :: "('d, 'e) cheerio \<Rightarrow> platform \<Rightarrow> 'd \<Rightarrow> json option" where
  \<open>extractJsonLd ch pf d =
     (case select ch ''script[type="application/ld+json"]'' d of
        [] \<Rightarrow> None
      | el # els \<Rightarrow>
          (case htmlOf ch el of
             None \<Rightarrow> None
           | Some script \<Rightarrow>
               if script = [] then None
               else (case jsonParse pf script of Inl err \<Rightarrow> None | Inr v \<Rightarrow> Some v)))\<close>

definition resolveOffers :: "json \<Rightarrow> json option" where
  "resolveOffers obj =
     (case getProp obj (js ''offers'') of
        None \<Rightarrow> None
      | Some (JArr offers) \<Rightarrow>
          (case offers of [] \<Rightarrow> None | x # xs \<Rightarrow> if x = JNull then None else Some x)
      | Some (JObj kvs) \<Rightarrow> Some (JObj kvs)
      | Some other \<Rightarrow> None)"

text \<open>
  The JSON-LD part of \<open>extractPrice\<close>: the pair it returns early, if it does.
\<close>

definition offersPrice :: "json option \<Rightarrow> (jsstring \<times> jsstring) option" where
  "offersPrice jsonLd =
     (case jsonLd of
        None \<Rightarrow> None
      | Some j \<Rightarrow>
          if truthy j then
            (case resolveOffers j of
               None \<Rightarrow> None
             | Some offers \<Rightarrow>
                 if truthy offers then
                   (let p = (case nullish (nullish (getProp offers (js ''price''))
                                     (getProp offers (js ''lowPrice''))) (Some (JStr []))
                             of None \<Rightarrow> [] | Some v \<Rightarrow> jsString v);
                        c = (case nullish (getProp offers (js ''priceCurrency'')) (Some (JStr []))
                             of None \<Rightarrow> [] | Some v \<Rightarrow> jsString v)
                    in if p \<noteq> [] then Some (p, c) else None)
                 else None)
          else None)"

text \<open>
  The three operands of the \<open>??\<close> chain for the price read from the markup; the last one
  strips everything but digits, period and comma from the text of the first
  \<open>.price, .product-price\<close> element.
\<close>

definition isPriceChar :: "code_unit \<Rightarrow> bool" where
  "isPriceChar c \<longleftrightarrow> isDigit c \<or> c = 46 \<or> c = 44"

definition itempropContent :: "('d, 'e) cheerio \<Rightarrow> 'd \<Rightarrow> jsstring option" where
  \<open>itempropContent ch d = map_option trim (firstAttr ch ''[itemprop="price"]'' ''content'' d)\<close>

definition itempropText :: "('d, 'e) cheerio \<Rightarrow> 'd \<Rightarrow> jsstring option" where
  \<open>itempropText ch d = Some (trim (allText ch ''[itemprop="price"]'' d))\<close>

definition priceClassText :: "('d, 'e) cheerio \<Rightarrow> 'd \<Rightarrow> jsstring option" where
  "priceClassText ch d =
     Some (trim (filter isPriceChar (firstText ch ''.price, .product-price'' d)))"

definition extractPrice ::
  "('d, 'e) cheerio \<Rightarrow> 'd \<Rightarrow> json option \<Rightarrow> jsstring \<times> jsstring" where
  \<open>extractPrice ch d jsonLd =
     (case offersPrice jsonLd of
        Some found \<Rightarrow> found
      | None \<Rightarrow>
          (let price = nullish (nullish (itempropContent ch d) (itempropText ch d))
                         (priceClassText ch d);
               currency = nullish
                  (map_option trim (firstAttr ch ''[itemprop="priceCurrency"]'' ''content'' d))
                  (Some [])
           in (case price of None \<Rightarrow> [] | Some p \<Rightarrow> p,
               case currency of None \<Rightarrow> [] | Some c \<Rightarrow> c)))\<close>

section \<open>A document given by its answers\<close>

text \<open>
  For concrete pages: a document is the table of the elements each selector matches, and
  an element carries its text, its inner HTML, its attributes, what \<open>find\<close> matches inside
  it and what is left of it without the matches of a selector. Removing the matches of a
  selector drops that selector's entry.
\<close>

datatype elem =
  Elem (elText: jsstring) (elHtml: "jsstring option") (elAttrs: "(string \<times> jsstring) list")
    (elFind: "(string \<times> elem list) list") (elWithout: "(string \<times> elem) list")

type_synonym page = "(string \<times> elem list) list"

definition tableCheerio :: "page \<Rightarrow> (page, elem) cheerio" where
  "tableCheerio loaded =
     \<lparr>loadHtml = (\<lambda>html. loaded),
      select = (\<lambda>sel d. case map_of d sel of None \<Rightarrow> [] | Some els \<Rightarrow> els),
      removeSel = (\<lambda>sel d. filter (\<lambda>entry. fst entry \<noteq> sel) d),
      findIn = (\<lambda>sel el. case map_of (elFind el) sel of None \<Rightarrow> [] | Some els \<Rightarrow> els),
      cloneWithout = (\<lambda>sel el. case map_of (elWithout el) sel of None \<Rightarrow> el | Some c \<Rightarrow> c),
      textOf = elText,
      htmlOf = elHtml,
      attrOf = (\<lambda>name el. map_of (elAttrs el) name)\<rparr>"

definition textElem :: "jsstring \<Rightarrow> elem" where
  "textElem t = Elem t (Some t) [] [] []"

text \<open>
  A platform for concrete pages. Its \<open>new URL\<close> accepts \<open>https://host/path\<close> and throws on
  a string without that scheme, as the real one throws on a string with no scheme at all;
  its JSON functions are not used by the examples.
\<close>

definition sampleParse :: url_parser where
  "sampleParse s =
     (if startsWith s (js ''https://'')
      then Inr \<lparr>hostname = takeWhile (\<lambda>c. c \<noteq> 47) (drop 8 s),
                pathname = dropWhile (\<lambda>c. c \<noteq> 47) (drop 8 s),
                origin = take 8 s @ takeWhile (\<lambda>c. c \<noteq> 47) (drop 8 s)\<rparr>
      else Inl (Error (js ''Invalid URL'')))"

definition samplePlatform :: platform where
  "samplePlatform =
     \<lparr>parseUrl = sampleParse,
      resolveHref = (\<lambda>src base. Inr (base @ src)),
      jsonParse = (\<lambda>text. Inl (Error (js ''Unexpected token''))),
      jsonStringify = (\<lambda>v. [])\<rparr>"

section \<open>crawler: extractLinks partitions the links\<close>














text \<open>
  On a page with the hrefs \<open>/about\<close>, \<open>https://example.com/a\<close>, \<open>https://other.org/b\<close>,
  \<open>page.html\<close> and \<open>#top\<close>, and the host \<open>example.com\<close>: two internal links, one
  external, one left out because it does not parse and one because of its form.
\<close>

definition mixedLinksPage :: page where
  "mixedLinksPage =
     [(''a[href]'',
       [Elem [] None [(''href'', js ''/about'')] [] [],
        Elem [] None [(''href'', js ''https://example.com/a'')] [] [],
        Elem [] None [(''href'', js ''https://other.org/b'')] [] [],
        Elem [] None [(''href'', js ''page.html'')] [] [],
        Elem [] None [(''href'', js ''#top'')] [] []])]"

lemma extractLinks_mixed:
  "extractLinks (tableCheerio mixedLinksPage) samplePlatform mixedLinksPage (js ''example.com'')
     = ([js ''/about'', js ''https://example.com/a''], 1)"
  by (simp add: anchorHrefs_def extractLinks_def linkStep_def tableCheerio_def
      mixedLinksPage_def samplePlatform_def sampleParse_def startsWith_def js_def)

section \<open>crawler: the price cascade\<close>

text \<open>
  When the JSON-LD gives no price, the price is the trimmed \<open>content\<close> attribute of the
  first \<open>itemprop="price"\<close> element, or else the trimmed text of those elements: that text
  is a string, never \<open>null\<close>, so the \<open>??\<close> before the third operand never yields to it.
\<close>

lemma extractPrice_markup:
  \<open>offersPrice jsonLd = None \<Longrightarrow>
   fst (extractPrice ch d jsonLd) =
     (case firstAttr ch ''[itemprop="price"]'' ''content'' d of
        Some content \<Rightarrow> trim content
      | None \<Rightarrow> trim (allText ch ''[itemprop="price"]'' d))\<close>
  by (simp add: extractPrice_def nullish_def itempropContent_def itempropText_def Let_def
      split: option.split)

text \<open>
  C5 does not hold of the code. On a page with no JSON-LD, no \<open>itemprop="price"\<close> element
  and a \<open>.price\<close> element with the text \<open>770\<close>, a space and the euro sign, the third source
  of the cascade would give \<open>770\<close>, and \<open>extractPrice\<close> returns the empty price.
\<close>

definition priceClassPage :: page where
  "priceClassPage = [(''.price, .product-price'', [textElem (js ''770 '' @ [8364])])]"

theorem extractPrice_ignores_price_class:
  \<open>offersPrice None = None \<and>
   select (tableCheerio priceClassPage) ''[itemprop="price"]'' priceClassPage = [] \<and>
   priceClassText (tableCheerio priceClassPage) priceClassPage = Some (js ''770'') \<and>
   extractPrice (tableCheerio priceClassPage) priceClassPage None = ([], [])\<close>
  by (simp add: extractPrice_def offersPrice_def nullish_def itempropContent_def itempropText_def
      priceClassText_def firstText_def firstAttr_def allText_def tableCheerio_def
      priceClassPage_def textElem_def trim_def js_def isPriceChar_def isDigit_def
      isWhiteSpace_def)

text \<open>
  \<open>extractJsonLd\<close> finds nothing in a document in which no JSON-LD script element is left;
  \<open>crawlPage\<close> calls it on the document that \<open>extractContent\<close> has removed the script
  elements from.
\<close>

lemma extractJsonLd_without_script:
  \<open>select ch ''script[type="application/ld+json"]'' d = [] \<Longrightarrow> extractJsonLd ch pf d = None\<close>
  by (simp add: extractJsonLd_def)

section \<open>crawler: crawlPage\<close>

definition getErrorStatus :: "js_error \<Rightarrow> nat option" where
  "getErrorStatus err =
     (case err of
        AxiosError code configUrl (Some response) message \<Rightarrow> Some (fst response)
      | other \<Rightarrow> None)"

definition getErrorMessage :: "js_error \<Rightarrow> jsstring" where
  "getErrorMessage err =
     (case err of
        AxiosError code configUrl response message \<Rightarrow>
          if code = Some (js ''ECONNABORTED'') then js ''Request timed out''
          else if code = Some (js ''ENOTFOUND'')
          then js ''DNS lookup failed: ''
                 @ (case configUrl of None \<Rightarrow> js ''unknown host'' | Some u \<Rightarrow> u)
          else if code = Some (js ''ERR_TLS_CERT_ALTNAME_INVALID'') then js ''SSL certificate error''
          else if code = Some (js ''ECONNRESET'') then js ''Connection reset by server''
          else if code = Some (js ''ECONNREFUSED'') then js ''Connection refused''
          else (case response of
                  Some r \<Rightarrow> js ''HTTP '' @ decimal (int (fst r)) @ js '': '' @ snd r
                | None \<Rightarrow> message)
      | Error message \<Rightarrow> message
      | Thrown rendered \<Rightarrow> rendered)"

record PageData =
  url :: jsstring
  status_code :: nat
  title :: jsstring
  h1 :: jsstring
  meta_description :: jsstring
  meta_keywords :: jsstring
  canonical :: jsstring
  og_image :: jsstring
  content :: jsstring
  word_count :: nat
  images :: "jsstring list"
  images_count :: nat
  internal_links :: "jsstring list"
  internal_links_count :: nat
  external_links_count :: nat
  json_ld :: jsstring
  price :: jsstring
  currency :: jsstring
  page_type :: page_type
  crawled_at :: jsstring

datatype CrawlError = CrawlError jsstring "nat option" jsstring

datatype CrawlResult = Success PageData | Failure CrawlError

text \<open>
  The world outside: \<open>http.get\<close>, which may throw, \<open>sleep\<close>, and the clock that
  \<open>new Date().toISOString()\<close> reads.
\<close>

record response =
  status :: nat
  body :: jsstring

record 's io =
  httpGet :: "jsstring \<Rightarrow> 's \<Rightarrow> (js_error + response) \<times> 's"
  sleep :: "nat \<Rightarrow> 's \<Rightarrow> 's"
  nowIso :: "'s \<Rightarrow> jsstring"

text \<open>\<open>$(sel).attr("content")?.trim() ?? ""\<close>.\<close>

definition attrOrEmpty :: "('d, 'e) cheerio \<Rightarrow> string \<Rightarrow> string \<Rightarrow> 'd \<Rightarrow> jsstring" where
  "attrOrEmpty ch sel name d =
     (case firstAttr ch sel name d of None \<Rightarrow> [] | Some v \<Rightarrow> trim v)"

definition failure :: "jsstring \<Rightarrow> js_error \<Rightarrow> CrawlResult" where
  "failure u err = Failure (CrawlError u (getErrorStatus err) (getErrorMessage err))"

definition crawlPage ::
  "('d, 'e) cheerio \<Rightarrow> platform \<Rightarrow> 's io \<Rightarrow> jsstring \<Rightarrow> 's \<Rightarrow> CrawlResult \<times> 's" where
  \<open>crawlPage ch pf io u s =
     (case withRetry (sleep io) (httpGet io u) s of
        (Inl err, s1) \<Rightarrow> (failure u err, s1)
      | (Inr response, s1) \<Rightarrow>
          (let d0 = loadHtml ch (body response) in
           case parseUrl pf u of
             Inl err \<Rightarrow> (failure u err, s1)
           | Inr baseUrl \<Rightarrow>
               (let baseHost = hostname baseUrl;
                    extracted = extractContent ch d0;
                    content = fst extracted;
                    d = snd extracted;
                    wordCount = (if content = [] then 0 else length (splitWs content));
                    images = extractImages ch pf d baseUrl;
                    links = extractLinks ch pf d baseHost;
                    jsonLdRaw = extractJsonLd ch pf d;
                    jsonLdString =
                      (case jsonLdRaw of
                         None \<Rightarrow> []
                       | Some j \<Rightarrow> if truthy j then jsonStringify pf j else []);
                    priced = extractPrice ch d jsonLdRaw
                in case classifyPage (parseUrl pf) u jsonLdRaw of
                     Inl err \<Rightarrow> (failure u err, s1)
                   | Inr pageType \<Rightarrow>
                       (Success
                          \<lparr>url = u,
                           status_code = status response,
                           title = trim (firstText ch ''title'' d),
                           h1 = trim (firstText ch ''h1'' d),
                           meta_description = attrOrEmpty ch ''meta[name="description"]'' ''content'' d,
                           meta_keywords = attrOrEmpty ch ''meta[name="keywords"]'' ''content'' d,
                           canonical = attrOrEmpty ch ''link[rel="canonical"]'' ''href'' d,
                           og_image = attrOrEmpty ch ''meta[property="og:image"]'' ''content'' d,
                           content = content,
                           word_count = wordCount,
                           images = images,
                           images_count = length images,
                           internal_links = fst links,
                           internal_links_count = length (fst links),
                           external_links_count = snd links,
                           json_ld = jsonLdString,
                           price = fst priced,
                           currency = snd priced,
                           page_type = pageType,
                           crawled_at = nowIso io s1\<rparr>, s1))))\<close>

section \<open>crawler: content and word count\<close>

text \<open>
  The cleaned text of a fetched page before truncation, and the content and the word
  count of a result.
\<close>

definition cleanedText :: "('d, 'e) cheerio \<Rightarrow> jsstring \<Rightarrow> jsstring" where
  "cleanedText ch html =
     trim (collapseWs (selectedText ch
       (removeSel ch ''script, style, noscript, iframe, svg, nav, header, footer''
          (loadHtml ch html))))"

definition contentOf :: "CrawlResult \<Rightarrow> jsstring option" where
  "contentOf r = (case r of Success data \<Rightarrow> Some (content data) | Failure err \<Rightarrow> None)"

definition wordCountOf :: "CrawlResult \<Rightarrow> nat option" where
  "wordCountOf r = (case r of Success data \<Rightarrow> Some (word_count data) | Failure err \<Rightarrow> None)"

definition sampleIo :: "unit io" where
  "sampleIo =
     \<lparr>httpGet = (\<lambda>u s. (Inr \<lparr>status = 200, body = js ''<html>''\<rparr>, s)),
      sleep = (\<lambda>ms s. s),
      nowIso = (\<lambda>s. js ''2024-01-01T00:00:00.000Z'')\<rparr>"

lemma notWs_a: "\<not> isWhiteSpace 97" "\<not> isWhiteSpace 98" "\<not> isWhiteSpace 99" "isWhiteSpace 32"
  by (simp_all add: isWhiteSpace_def)

lemma collapseWs_plain:
  "\<forall>c \<in> set xs. \<not> isWhiteSpace c \<Longrightarrow> collapseWs (xs @ r) = xs @ collapseWs r"
  by (induction xs) simp_all

lemma splitFrom_plain:
  "\<forall>c \<in> set xs. \<not> isWhiteSpace c \<Longrightarrow> splitFrom cur (xs @ r) = splitFrom (cur @ xs) r"
  by (induction xs arbitrary: cur) simp_all

lemma trim_clean:
  "s \<noteq> [] \<Longrightarrow> \<not> isWhiteSpace (hd s) \<Longrightarrow> \<not> isWhiteSpace (last s) \<Longrightarrow> trim s = s"
proof -
  assume a: "s \<noteq> []" "\<not> isWhiteSpace (hd s)" "\<not> isWhiteSpace (last s)"
  then have 1: "dropWhile isWhiteSpace s = s" by (cases s) simp_all
  from a have "rev s \<noteq> []" "\<not> isWhiteSpace (hd (rev s))" by (simp_all add: hd_rev)
  then have 2: "dropWhile isWhiteSpace (rev s) = rev s" by (cases "rev s") simp_all
  show ?thesis by (simp add: trim_def 1 2)
qed

definition longPage :: page where
  "longPage = [(''main'', [textElem (replicate 2000 97 @ js '' b c'')])]"

lemma long_collapse: "collapseWs (replicate 2000 97 @ js '' b c'') = replicate 2000 97 @ js '' b c''"
  by (simp add: collapseWs_plain notWs_a js_def)

lemma long_clean: "cleanedText (tableCheerio longPage) (js ''<html>'') = replicate 2000 97 @ js '' b c''"
proof -
  have "selectedText (tableCheerio longPage)
          (removeSel (tableCheerio longPage) ''script, style, noscript, iframe, svg, nav, header, footer''
            (loadHtml (tableCheerio longPage) (js ''<html>''))) = replicate 2000 97 @ js '' b c''"
    by (simp add: selectedText_def CONTENT_SELECTORS_def tableCheerio_def longPage_def textElem_def)
  moreover have "trim (replicate 2000 97 @ js '' b c'') = replicate 2000 97 @ js '' b c''"
    by (rule trim_clean) (simp_all add: js_def notWs_a hd_append)
  ultimately show ?thesis by (simp add: cleanedText_def long_collapse)
qed

lemma long_words: "length (splitWs (replicate 2000 97 @ js '' b c'')) = 3"
  by (simp add: splitWs_def splitFrom_plain notWs_a js_def)

lemma long_prefix_words: "length (splitWs (replicate 2000 97)) = 1"
  using splitFrom_plain [of "replicate 2000 97" "[]" "[]"] by (simp add: splitWs_def notWs_a)


lemma classifyPage_parsed:
  "parse u = Inr parsed \<Longrightarrow> \<exists>t. classifyPage parse u jsonLd = Inr t"
  by (simp add: classifyPage_def Let_def split: option.split)

lemma crawlPage_fetched:
  assumes "withRetry (sleep io) (httpGet io u) s = (Inr response, s1)"
    and "parseUrl pf u = Inr baseUrl"
  shows "contentOf (fst (crawlPage ch pf io u s))
           = Some (fst (extractContent ch (loadHtml ch (body response)))) \<and>
         wordCountOf (fst (crawlPage ch pf io u s))
           = Some (if fst (extractContent ch (loadHtml ch (body response))) = [] then 0
                   else length (splitWs (fst (extractContent ch (loadHtml ch (body response))))))"
proof -
  obtain t where "classifyPage (parseUrl pf) u
      (extractJsonLd ch pf (snd (extractContent ch (loadHtml ch (body response))))) = Inr t"
    using classifyPage_parsed [of "parseUrl pf" u baseUrl] assms(2) by blast
  with assms show ?thesis
    by (simp add: crawlPage_def Let_def contentOf_def wordCountOf_def)
qed

lemma sample_fetch:
  "withRetry (sleep sampleIo) (httpGet sampleIo u) () = (Inr \<lparr>status = 200, body = js ''<html>''\<rparr>, ())"
  by (simp add: withRetry_def sampleIo_def)

lemma sample_parse_long:
  "parseUrl samplePlatform (js ''https://example.com/long'') =
     Inr \<lparr>hostname = js ''example.com'', pathname = js ''/long'', origin = js ''https://example.com''\<rparr>"
  by (simp add: samplePlatform_def sampleParse_def startsWith_def js_def)

lemma long_content:
  "fst (extractContent (tableCheerio longPage) (loadHtml (tableCheerio longPage) (js ''<html>'')))
     = replicate 2000 97"
proof -
  have "fst (extractContent (tableCheerio longPage) (loadHtml (tableCheerio longPage) (js ''<html>'')))
      = take 2000 (cleanedText (tableCheerio longPage) (js ''<html>''))"
    by (simp add: extractContent_def cleanedText_def Let_def)
  then show ?thesis by (simp add: long_clean)
qed

text \<open>
  C1 does not hold of the code. The documentation of the repository describes \<open>content\<close>
  as the body text of at most 2000 characters and \<open>word_count\<close> as the word count of the
  full body text. A page whose main text is 2000 letters \<open>a\<close> followed by the words \<open>b\<close>
  and \<open>c\<close> has a cleaned text of three words; \<open>crawlPage\<close> returns the 2000 letters as
  content and the word count 1, the count of the truncated content.
\<close>

theorem crawlPage_counts_words_of_prefix:
  "cleanedText (tableCheerio longPage) (js ''<html>'') = replicate 2000 97 @ js '' b c'' \<and>
   length (splitWs (replicate 2000 97 @ js '' b c'')) = 3 \<and>
   contentOf (fst (crawlPage (tableCheerio longPage) samplePlatform sampleIo
      (js ''https://example.com/long'') ())) = Some (replicate 2000 97) \<and>
   wordCountOf (fst (crawlPage (tableCheerio longPage) samplePlatform sampleIo
      (js ''https://example.com/long'') ())) = Some 1"
proof -
  have ne: "replicate 2000 (97::nat) \<noteq> []" by simp
  show ?thesis
    using crawlPage_fetched [OF sample_fetch sample_parse_long, of "tableCheerio longPage"]
    by (simp add: long_content long_clean long_words long_prefix_words ne)
qed


text \<open>
  The content of a fetched page is the cleaned text cut to its first 2000 code units.
\<close>

lemma crawlPage_content_truncated:
  assumes "crawlPage ch pf io u s = (Success data, s')"
  shows "\<exists>response s1.
           withRetry (sleep io) (httpGet io u) s = (Inr response, s1) \<and>
           content data = take 2000 (cleanedText ch (body response)) \<and>
           length (content data) \<le> 2000"
proof (cases "withRetry (sleep io) (httpGet io u) s")
  case (Pair outcome s1)
  show ?thesis
  proof (cases outcome)
    case (Inl err)
    with Pair assms show ?thesis by (simp add: crawlPage_def failure_def)
  next
    case (Inr response)
    with Pair assms have
      "content data = take 2000 (cleanedText ch (body response))"
      by (auto simp: crawlPage_def failure_def Let_def extractContent_def cleanedText_def
          split: sum.splits)
    moreover then have "length (content data) \<le> 2000" by simp
    ultimately show ?thesis using Pair Inr by blast
  qed
qed

section \<open>Numbers\<close>

text \<open>
  A JavaScript number is an IEEE 754 double. A price text has no sign, so the numbers
  of the program are never negative and the sign is left out: a number is \<open>NaN\<close>,
  \<open>Infinity\<close>, or \<open>Finite m e\<close>, the value \<open>m\<close> times two to the power \<open>e\<close>, with \<open>m\<close>
  not negative and of at most 53 bits (two to the power 53 included, after a carry).
  Every operation computes the exact rational result in integers and rounds it to the
  nearest double, a tie going to the even significand, as the standard prescribes.
\<close>

datatype double = Finite int int | Infinity | NaN

text \<open>The number of binary digits of a positive integer.\<close>

function bitLength :: "int \<Rightarrow> int" where
  "bitLength n = (if n \<le> 0 then 0 else 1 + bitLength (n div 2))"
  by pat_completeness auto
termination
  by (relation "measure nat") auto

declare bitLength.simps [simp del]

text \<open>The largest \<open>e\<close> with two to the power \<open>e\<close> at most \<open>p / q\<close>, for positive \<open>p\<close> and \<open>q\<close>.\<close>

definition floorLog2 :: "int \<Rightarrow> int \<Rightarrow> int" where
  "floorLog2 p q =
     (let e0 = bitLength p - bitLength q
      in if (if 0 \<le> e0 then q * 2 ^ nat e0 \<le> p else q \<le> p * 2 ^ nat (- e0)) then e0
         else e0 - 1)"

text \<open>\<open>num / den\<close> rounded to the nearest integer, a tie going to the even one.\<close>

definition roundHalfEven :: "int \<Rightarrow> int \<Rightarrow> int" where
  "roundHalfEven num den =
     (let f = num div den; r = 2 * (num mod den)
      in if r < den then f else if den < r then f + 1 else if even f then f else f + 1)"

text \<open>
  The double nearest to \<open>p / q\<close> (\<open>p\<close> not negative, \<open>q\<close> positive): a significand of at
  most 53 bits, a least unit of two to the power -1074, and \<open>Infinity\<close> from two to the
  power 1024 on.
\<close>

definition roundRatio :: "int \<Rightarrow> int \<Rightarrow> double" where
  "roundRatio p q =
     (if p = 0 then Finite 0 0
      else
        (let sh = max (floorLog2 p q - 52) (- 1074);
             m = (if 0 \<le> sh then roundHalfEven p (q * 2 ^ nat sh)
                  else roundHalfEven (p * 2 ^ nat (- sh)) q)
         in if 0 \<le> sh \<and> 2 ^ 1024 \<le> m * 2 ^ nat sh then Infinity else Finite m sh))"

text \<open>\<open>x / y\<close> on numbers that are not negative.\<close>

definition fdiv :: "double \<Rightarrow> double \<Rightarrow> double" where
  "fdiv x y =
     (case x of
        NaN \<Rightarrow> NaN
      | Infinity \<Rightarrow> (case y of Finite my ey \<Rightarrow> Infinity | Infinity \<Rightarrow> NaN | NaN \<Rightarrow> NaN)
      | Finite mx ex \<Rightarrow>
          (case y of
             NaN \<Rightarrow> NaN
           | Infinity \<Rightarrow> Finite 0 0
           | Finite my ey \<Rightarrow>
               if my = 0 then (if mx = 0 then NaN else Infinity)
               else if ey \<le> ex then roundRatio (mx * 2 ^ nat (ex - ey)) my
               else roundRatio mx (my * 2 ^ nat (ey - ex))))"

text \<open>
  \<open>parseFloat\<close> on a string of digits, periods and commas, the only code units that
  \<open>parsePrice\<close> leaves: it reads the longest prefix of the form digits, optionally a period
  and digits, or a period and at least one digit, and gives \<open>NaN\<close> when there is none.
  The value is the double nearest to the decimal number read (the standard leaves the
  last bit open beyond 20 significant digits).
\<close>

fun digitsValue :: "int \<Rightarrow> jsstring \<Rightarrow> int" where
  "digitsValue acc [] = acc"
| "digitsValue acc (c # cs) = digitsValue (10 * acc + (int c - 48)) cs"

definition parseFloat :: "jsstring \<Rightarrow> double" where
  "parseFloat s =
     (let whole = takeWhile isDigit s;
          rest = dropWhile isDigit s;
          frac = (case rest of [] \<Rightarrow> [] | c # cs \<Rightarrow> if c = 46 then takeWhile isDigit cs else [])
      in if whole = [] \<and> frac = [] then NaN
         else roundRatio (digitsValue 0 (whole @ frac)) (10 ^ length frac))"

text \<open>
  \<open>String\<close> of a number of at least ten to the power 21, which is an integer \<open>x\<close>: the
  digits \<open>s\<close> and the exponent \<open>t\<close> with the fewest digits such that \<open>s\<close> times ten to the
  power \<open>t\<close> reads back as \<open>x\<close>, the closest to \<open>x\<close> among those, in exponential notation.
\<close>

definition roundTrips :: "int \<Rightarrow> int \<Rightarrow> bool" where
  "roundTrips v x =
     (case roundRatio v 1 of
        Finite m e \<Rightarrow> 0 \<le> e \<and> m * 2 ^ nat e = x
      | other \<Rightarrow> False)"

definition candidates :: "int \<Rightarrow> nat \<Rightarrow> (int \<times> nat) list" where
  "candidates x k =
     (let nd = length (decimal x)
      in filter (\<lambda>(s, t). 10 ^ (k - 1) \<le> s \<and> s < 10 ^ k \<and> roundTrips (s * 10 ^ t) x)
           (concat (map (\<lambda>n. [(x div 10 ^ (n - k), n - k), (x div 10 ^ (n - k) + 1, n - k)])
              [nd, nd + 1])))"

fun closest :: "int \<Rightarrow> (int \<times> nat) \<Rightarrow> (int \<times> nat) list \<Rightarrow> int \<times> nat" where
  "closest x best [] = best"
| "closest x best (c # cs) =
     (let db = \<bar>fst best * 10 ^ snd best - x\<bar>; dc = \<bar>fst c * 10 ^ snd c - x\<bar>
      in if dc < db \<or> (dc = db \<and> even (fst c) \<and> odd (fst best)) then closest x c cs
         else closest x best cs)"

definition shortestDigits :: "int \<Rightarrow> int \<times> nat" where
  "shortestDigits x =
     (case filter (\<lambda>k. candidates x k \<noteq> []) [1..<18] of
        [] \<Rightarrow> (x, 0)
      | k # ks \<Rightarrow> (case candidates x k of [] \<Rightarrow> (x, 0) | c # cs \<Rightarrow> closest x c cs))"

definition exponential :: "int \<Rightarrow> jsstring" where
  "exponential x =
     (let st = shortestDigits x;
          ds = decimal (fst st);
          n = length ds + snd st
      in (case ds of [] \<Rightarrow> [] | d # rest \<Rightarrow> if rest = [] then [d] else d # 46 # rest)
         @ js ''e+'' @ decimal (int n - 1))"

text \<open>
  \<open>x.toFixed(2)\<close>: below ten to the power 21 the integer \<open>n\<close> nearest to a hundred times
  the exact value of \<open>x\<close> (the larger one on a tie), written with two decimals; from there
  on, \<open>String(x)\<close>.
\<close>

definition toFixed2 :: "double \<Rightarrow> jsstring" where
  "toFixed2 x =
     (case x of
        NaN \<Rightarrow> js ''NaN''
      | Infinity \<Rightarrow> js ''Infinity''
      | Finite m e \<Rightarrow>
          if 0 \<le> e \<and> 10 ^ 21 \<le> m * 2 ^ nat e then exponential (m * 2 ^ nat e)
          else
            (let n = (if 0 \<le> e then 100 * m * 2 ^ nat e
                      else (200 * m + 2 ^ nat (- e)) div (2 * 2 ^ nat (- e)));
                 ds = decimal n;
                 padded = replicate (3 - length ds) 48 @ ds
             in take (length padded - 2) padded @ [46] @ drop (length padded - 2) padded))"

text \<open>
  Values that are known of the platform: the doubles of one tenth, one third, \<open>1.21\<close> and
  ten to the power 23, overflow and underflow; \<open>(1.005).toFixed(2)\<close>, which is \<open>1.00\<close>
  because the double of 1.005 lies below it; and the exponential notation from ten to the
  power 21 on.
\<close>

lemma known_doubles:
  "roundRatio 1 10 = Finite 7205759403792794 (- 56)"
  "roundRatio 1 3 = Finite 6004799503160661 (- 54)"
  "roundRatio 121 100 = Finite 5449355549118300 (- 52)"
  "roundRatio (10 ^ 23) 1 = Finite 5960464477539062 24"
  "roundRatio (10 ^ 400) 1 = Infinity"
  "roundRatio 1 (10 ^ 400) = Finite 0 (- 1074)"
  by code_simp+

lemma known_toFixed:
  "toFixed2 (roundRatio 1005 1000) = js ''1.00''"
  "toFixed2 (roundRatio 5 1000) = js ''0.01''"
  "toFixed2 (roundRatio 25 10) = js ''2.50''"
  "toFixed2 (Finite 0 0) = js ''0.00''"
  "toFixed2 (roundRatio (10 ^ 20) 1) = js ''100000000000000000000.00''"
  by code_simp+

lemma known_exponential:
  "toFixed2 (roundRatio (10 ^ 21) 1) = js ''1e+21''"
  "toFixed2 (roundRatio (2 ^ 70) 1) = js ''1.1805916207174113e+21''"
  "toFixed2 (roundRatio (10 ^ 23) 1) = js ''1e+23''"
  by code_simp+

section \<open>product-extractor: prices\<close>

definition cleanText :: "jsstring \<Rightarrow> jsstring" where
  "cleanText text = trim (collapseWs text)"

text \<open>
  \<open>toSnakeCase\<close>: lower case, every maximal run of code units outside \<open>a-z0-9\<close> replaced
  by one underscore, leading and trailing underscores removed.
\<close>

definition isSnakeChar :: "code_unit \<Rightarrow> bool" where
  "isSnakeChar c \<longleftrightarrow> (97 \<le> c \<and> c \<le> 122) \<or> isDigit c"

function underscoreRuns :: "jsstring \<Rightarrow> jsstring" where
  "underscoreRuns [] = []"
| "underscoreRuns (c # cs) =
     (if isSnakeChar c then c # underscoreRuns cs
      else 95 # underscoreRuns (dropWhile (\<lambda>x. \<not> isSnakeChar x) cs))"
  by pat_completeness auto
termination
  by (relation "measure length") (auto simp: less_Suc_eq_le length_dropWhile_le)

definition toSnakeCase :: "jsstring \<Rightarrow> jsstring" where
  "toSnakeCase str =
     rev (dropWhile (\<lambda>c. c = 95) (rev (dropWhile (\<lambda>c. c = 95)
       (underscoreRuns (toLowerCase str)))))"

text \<open>
  The lookahead of \<open>/\.(?=\d{3}(?:[,]|$))/g\<close>: exactly three digits follow, and then a
  comma or the end of the string. \<open>replace\<close> with that pattern removes every such period;
  \<open>replace(",", ".")\<close> changes the first comma only.
\<close>

definition thousandsAhead :: "jsstring \<Rightarrow> bool" where
  "thousandsAhead cs \<longleftrightarrow>
     3 \<le> length cs \<and> list_all isDigit (take 3 cs) \<and>
     (case drop 3 cs of [] \<Rightarrow> True | c # rest \<Rightarrow> c = 44)"

fun removeThousands :: "jsstring \<Rightarrow> jsstring" where
  "removeThousands [] = []"
| "removeThousands (c # cs) =
     (if c = 46 \<and> thousandsAhead cs then removeThousands cs else c # removeThousands cs)"

fun commaToPeriod :: "jsstring \<Rightarrow> jsstring" where
  "commaToPeriod [] = []"
| "commaToPeriod (c # cs) = (if c = 44 then 46 # cs else c # commaToPeriod cs)"

definition parsePrice :: "jsstring \<Rightarrow> double option" where
  "parsePrice raw =
     (let s = filter isPriceChar raw
      in if s = [] then None
         else (let normalized = commaToPeriod (removeThousands s);
                   num = parseFloat normalized
               in if num = NaN then None else Some num))"

definition formatPrice :: "double \<Rightarrow> jsstring" where
  "formatPrice num = toFixed2 num"

text \<open>The number that the literal \<open>1.21\<close> denotes.\<close>

definition literal_1_21 :: double where
  "literal_1_21 = roundRatio 121 100"

text \<open>
  \<open>priceInclNum !== null ? formatPrice(priceInclNum / 1.21) : ""\<close>, the expression that
  both extractors compute from a cleaned price text.
\<close>

definition priceExclOf :: "jsstring \<Rightarrow> jsstring" where
  "priceExclOf priceInclRaw =
     (case parsePrice priceInclRaw of
        None \<Rightarrow> []
      | Some priceInclNum \<Rightarrow> formatPrice (fdiv priceInclNum literal_1_21))"

section \<open>product-extractor: variants\<close>

text \<open>
  The statements of \<open>extractProduct\<close> that compute the \<open>variants\<close> field of its result.
  They read the document only, nothing that the rest of the function computes, and the
  rest of the function does not read \<open>variants\<close>. \<open>findFirstText\<close> is
  \<open>$row.find(sel).first().text()\<close>.
\<close>

definition findFirstText :: "('d, 'e) cheerio \<Rightarrow> string \<Rightarrow> 'e \<Rightarrow> jsstring" where
  "findFirstText ch sel el = (case findIn ch sel el of [] \<Rightarrow> [] | e # es \<Rightarrow> textOf ch e)"

definition findFirstAttr :: "('d, 'e) cheerio \<Rightarrow> string \<Rightarrow> string \<Rightarrow> 'e \<Rightarrow> jsstring option" where
  "findFirstAttr ch sel name el = (case findIn ch sel el of [] \<Rightarrow> None | e # es \<Rightarrow> attrOf ch name e)"

text \<open>Whether the lower-cased \<open>style\<close> of the first \<open>.s1-buttonRow-wh\<close> names the colour.\<close>

definition stockStyle :: "('d, 'e) cheerio \<Rightarrow> 'e \<Rightarrow> bool" where
  "stockStyle ch row =
     includesStr
       (toLowerCase (case findFirstAttr ch ''.s1-buttonRow-wh'' ''style'' row of
                       None \<Rightarrow> [] | Some style \<Rightarrow> style))
       (js ''#228b22'')"

record ProductVariant =
  color :: jsstring
  art_no :: jsstring
  price_incl_vat :: jsstring
  price_excl_vat :: jsstring
  in_stock :: bool
  status_text :: jsstring

definition variantOfRow :: "('d, 'e) cheerio \<Rightarrow> 'e \<Rightarrow> ProductVariant" where
  "variantOfRow ch row =
     (let priceInclRaw = cleanText (findFirstText ch ''.price .priceCombTaxValueNumber'' row)
      in \<lparr>color = cleanText (findFirstText ch ''.s1-buttonRow-val .s1-buttonRow-txt'' row),
          art_no = cleanText (findFirstText ch ''.s1-buttonRow-identifier .s1-buttonRow-txt'' row),
          price_incl_vat = priceInclRaw,
          price_excl_vat = priceExclOf priceInclRaw,
          in_stock = stockStyle ch row,
          status_text = cleanText (findFirstText ch ''.s1-buttonRow-wh'' row)\<rparr>)"

text \<open>The variant rows, and the fallback when there is none.\<close>

definition extractProduct_variants :: "('d, 'e) cheerio \<Rightarrow> 'd \<Rightarrow> ProductVariant list" where
  "extractProduct_variants ch d =
     (let variants = map (variantOfRow ch) (select ch ''.s1-buttonRows .s1-buttonRow'' d)
      in if length variants = 0
         then (let mainPriceRaw = cleanText (firstText ch ''.price .priceCombTaxValueNumber'' d)
               in if mainPriceRaw \<noteq> []
                  then variants @
                         [\<lparr>color = [], art_no = [], price_incl_vat = mainPriceRaw,
                           price_excl_vat = priceExclOf mainPriceRaw, in_stock = False,
                           status_text = []\<rparr>]
                  else variants)
         else variants)"

text \<open>
  The second extractor builds each variant as an object with label-derived keys. The
  object is the list of its properties; \<open>assign\<close> is \<open>variant[key] = v\<close>, and
  \<open>Object.keys(variant).length\<close> is the length of the list.
\<close>

type_synonym DynamicVariant = "(jsstring \<times> jsstring) list"

fun assign :: "jsstring \<Rightarrow> jsstring \<Rightarrow> DynamicVariant \<Rightarrow> DynamicVariant" where
  "assign key v [] = [(key, v)]"
| "assign key v (p # ps) = (if fst p = key then (key, v) # ps else p # assign key v ps)"

definition labelledStep ::
  "('d, 'e) cheerio \<Rightarrow> string \<Rightarrow> DynamicVariant \<Rightarrow> 'e \<Rightarrow> DynamicVariant" where
  "labelledStep ch fallback variant el =
     (let labelRaw = cleanText (textOf ch (cloneWithout ch ''.s1-buttonRow-txt'' el));
          v = cleanText (findFirstText ch ''.s1-buttonRow-txt'' el)
      in if v = [] then variant
         else (let key = (if labelRaw \<noteq> [] then toSnakeCase labelRaw
                          else js fallback @ decimal (int (length variant) + 1))
               in if key \<noteq> [] then assign key v variant else variant))"

definition dynamicVariantOfRow :: "('d, 'e) cheerio \<Rightarrow> 'e \<Rightarrow> DynamicVariant" where
  "dynamicVariantOfRow ch row =
     (let v1 = foldl (labelledStep ch ''attr_'') [] (findIn ch ''.s1-buttonRow-val'' row);
          v2 = foldl (labelledStep ch ''line_'') v1 (findIn ch ''.s1-buttonRow-line'' row);
          priceInclRaw = cleanText (findFirstText ch ''.price .priceCombTaxValueNumber'' row);
          v3 = (if priceInclRaw \<noteq> []
                then assign (js ''price_excl_vat'') (priceExclOf priceInclRaw)
                       (assign (js ''price_incl_vat'') priceInclRaw v2)
                else v2);
          v4 = assign (js ''in_stock'') (if stockStyle ch row then js ''true'' else js ''false'') v3;
          statusText = cleanText (findFirstText ch ''.s1-buttonRow-wh'' row)
      in if statusText \<noteq> [] then assign (js ''status_text'') statusText v4 else v4)"

definition extractProduct_variants_dynamic :: "('d, 'e) cheerio \<Rightarrow> 'd \<Rightarrow> DynamicVariant list" where
  "extractProduct_variants_dynamic ch d =
     (let variants = map (dynamicVariantOfRow ch) (select ch ''.s1-buttonRows .s1-buttonRow'' d)
      in if length variants = 0
         then (let mainPriceRaw = cleanText (firstText ch ''.price .priceCombTaxValueNumber'' d)
               in if mainPriceRaw \<noteq> []
                  then variants @
                         [[(js ''price_incl_vat'', mainPriceRaw),
                           (js ''price_excl_vat'', priceExclOf mainPriceRaw),
                           (js ''in_stock'', js ''false'')]]
                  else variants)
         else variants)"

section \<open>product-extractor: the price vectors\<close>

text \<open>\<open>numberIs r n\<close>: the parse succeeded and the number is exactly the integer \<open>n\<close>.\<close>

definition numberIs :: "double option \<Rightarrow> int \<Rightarrow> bool" where
  "numberIs r n \<longleftrightarrow>
     (case r of
        Some (Finite m e) \<Rightarrow> (if 0 \<le> e then m * 2 ^ nat e = n else m = n * 2 ^ nat (- e))
      | other \<Rightarrow> False)"

text \<open>
  C2, as stated, fails on its second vector: the price text \<open>1 250,00\<close> with the euro
  sign parses to 1250, and 1250 divided by 1.21 is 1033.0578 and more, which \<open>toFixed(2)\<close>
  writes as \<open>1033.06\<close>, not as \<open>1032.23\<close>.
\<close>

theorem priceExcl_1250_is_not_1032_23:
  "priceExclOf (js ''1 250,00 '' @ [8364]) = js ''1033.06'' \<and>
   priceExclOf (js ''1 250,00 '' @ [8364]) \<noteq> js ''1032.23''"
  by code_simp

text \<open>
  C2, amended. \<open>770\<close> with the euro sign parses to 770 and gives the price without VAT
  \<open>636.36\<close>; \<open>1 250,00\<close> with the euro sign parses to 1250 and gives \<open>1033.06\<close>; \<open>N/A\<close>
  gives no number (not zero), and the price without VAT is then the empty string.
\<close>

theorem parsePrice_vectors:
  "numberIs (parsePrice (js ''770 '' @ [8364])) 770 \<and>
   priceExclOf (js ''770 '' @ [8364]) = js ''636.36'' \<and>
   numberIs (parsePrice (js ''1 250,00 '' @ [8364])) 1250 \<and>
   priceExclOf (js ''1 250,00 '' @ [8364]) = js ''1033.06'' \<and>
   parsePrice (js ''N/A'') = None \<and>
   \<not> numberIs (parsePrice (js ''N/A'')) 0 \<and>
   priceExclOf (js ''N/A'') = []"
  by code_simp

section \<open>product-extractor: the fallback variant\<close>

lemma fallback_static:
  assumes "select ch ''.s1-buttonRows .s1-buttonRow'' d = []"
  shows "extractProduct_variants ch d =
     (let mainPriceRaw = cleanText (firstText ch ''.price .priceCombTaxValueNumber'' d)
      in if mainPriceRaw \<noteq> []
         then [\<lparr>color = [], art_no = [], price_incl_vat = mainPriceRaw,
                 price_excl_vat = priceExclOf mainPriceRaw, in_stock = False, status_text = []\<rparr>]
         else [])"
  using assms by (simp add: extractProduct_variants_def Let_def)

lemma fallback_dynamic:
  assumes "select ch ''.s1-buttonRows .s1-buttonRow'' d = []"
  shows "extractProduct_variants_dynamic ch d =
     (let mainPriceRaw = cleanText (firstText ch ''.price .priceCombTaxValueNumber'' d)
      in if mainPriceRaw \<noteq> []
         then [[(js ''price_incl_vat'', mainPriceRaw),
                (js ''price_excl_vat'', priceExclOf mainPriceRaw),
                (js ''in_stock'', js ''false'')]]
         else [])"
  using assms by (simp add: extractProduct_variants_dynamic_def Let_def)

lemma rows_static:
  "select ch ''.s1-buttonRows .s1-buttonRow'' d \<noteq> [] \<Longrightarrow>
   length (extractProduct_variants ch d) = length (select ch ''.s1-buttonRows .s1-buttonRow'' d)"
  by (simp add: extractProduct_variants_def Let_def)

lemma rows_dynamic:
  "select ch ''.s1-buttonRows .s1-buttonRow'' d \<noteq> [] \<Longrightarrow>
   length (extractProduct_variants_dynamic ch d)
     = length (select ch ''.s1-buttonRows .s1-buttonRow'' d)"
  by (simp add: extractProduct_variants_dynamic_def Let_def)

text \<open>
  C7. On a page with no variant row and a displayed main price that is not empty once
  cleaned, both extractors return exactly one variant, made from that price: its price
  with VAT is the cleaned text and its price without VAT the formatted quotient by 1.21.
  And whenever the displayed main price is not empty, with or without variant rows, the
  list of variants has at least one element.
\<close>

theorem extractProduct_fallback_variant:
  "(select ch ''.s1-buttonRows .s1-buttonRow'' d = [] \<and>
    cleanText (firstText ch ''.price .priceCombTaxValueNumber'' d) \<noteq> [] \<longrightarrow>
      extractProduct_variants ch d =
        [\<lparr>color = [], art_no = [],
          price_incl_vat = cleanText (firstText ch ''.price .priceCombTaxValueNumber'' d),
          price_excl_vat = priceExclOf (cleanText (firstText ch ''.price .priceCombTaxValueNumber'' d)),
          in_stock = False, status_text = []\<rparr>] \<and>
      extractProduct_variants_dynamic ch d =
        [[(js ''price_incl_vat'', cleanText (firstText ch ''.price .priceCombTaxValueNumber'' d)),
          (js ''price_excl_vat'',
             priceExclOf (cleanText (firstText ch ''.price .priceCombTaxValueNumber'' d))),
          (js ''in_stock'', js ''false'')]]) \<and>
   (cleanText (firstText ch ''.price .priceCombTaxValueNumber'' d) \<noteq> [] \<longrightarrow>
      1 \<le> length (extractProduct_variants ch d) \<and>
      1 \<le> length (extractProduct_variants_dynamic ch d))"
proof (cases "select ch ''.s1-buttonRows .s1-buttonRow'' d = []")
  case True
  then show ?thesis by (simp add: fallback_static fallback_dynamic Let_def)
next
  case False
  then have "1 \<le> length (select ch ''.s1-buttonRows .s1-buttonRow'' d)"
    by (cases "select ch ''.s1-buttonRows .s1-buttonRow'' d") simp_all
  with False show ?thesis by (simp add: rows_static rows_dynamic)
qed

text \<open>
  A page whose only price element reads \<open>500\<close> and the euro sign, among white space: one
  variant, with the price without VAT \<open>413.22\<close>.
\<close>

definition mainPricePage :: page where
  "mainPricePage = [(''.price .priceCombTaxValueNumber'', [textElem (js '' 500 '' @ [8364, 10])])]"

lemma mainPrice_rows: "select (tableCheerio mainPricePage) ''.s1-buttonRows .s1-buttonRow'' mainPricePage = []"
  by (simp add: tableCheerio_def mainPricePage_def)

lemma mainPrice_text:
  "cleanText (firstText (tableCheerio mainPricePage) ''.price .priceCombTaxValueNumber'' mainPricePage)
     = js ''500 '' @ [8364]"
  by (simp add: cleanText_def firstText_def tableCheerio_def mainPricePage_def textElem_def
      trim_def js_def isWhiteSpace_def)

lemma excl_500: "priceExclOf (js ''500 '' @ [8364]) = js ''413.22''"
  by code_simp

theorem extractProduct_fallback_variant_witness:
  "extractProduct_variants (tableCheerio mainPricePage) mainPricePage =
     [\<lparr>color = [], art_no = [], price_incl_vat = js ''500 '' @ [8364],
       price_excl_vat = js ''413.22'', in_stock = False, status_text = []\<rparr>] \<and>
   extractProduct_variants_dynamic (tableCheerio mainPricePage) mainPricePage =
     [[(js ''price_incl_vat'', js ''500 '' @ [8364]), (js ''price_excl_vat'', js ''413.22''),
       (js ''in_stock'', js ''false'')]] \<and>
   1 \<le> length (extractProduct_variants (tableCheerio mainPricePage) mainPricePage) \<and>
   1 \<le> length (extractProduct_variants_dynamic (tableCheerio mainPricePage) mainPricePage)"
proof -
  have ne: "js ''500 '' @ [8364] \<noteq> []" by (simp add: js_def)
  show ?thesis
    using extractProduct_fallback_variant [of "tableCheerio mainPricePage" mainPricePage]
    by (simp add: mainPrice_rows mainPrice_text excl_500 ne)
qed

lemma map_of_assign:
  "map_of (assign key v m) k = (if k = key then Some v else map_of m k)"
  by (induction m) auto

lemma in_stock_dynamic_row:
  "map_of (dynamicVariantOfRow ch row) (js ''in_stock'')
     = Some (if stockStyle ch row then js ''true'' else js ''false'')"
proof -
  have "js ''in_stock'' \<noteq> js ''status_text''" by (simp add: js_def)
  then show ?thesis by (simp add: dynamicVariantOfRow_def Let_def map_of_assign)
qed

lemma in_stock_static_row: "in_stock (variantOfRow ch row) = stockStyle ch row"
  by (simp add: variantOfRow_def Let_def)

text \<open>
  C10. On a page with no variant row the extractors return at most one variant, and it is
  not in stock (\<open>false\<close>, or the string \<open>false\<close> under the key \<open>in_stock\<close> in the
  second extractor), with empty \<open>color\<close> and \<open>art_no\<close> (no such keys in the second
  extractor), whatever else the document holds. On a page with variant rows the stock
  flag of each variant is the colour check on its own row.
\<close>

theorem extractProduct_fallback_not_in_stock:
  "(select ch ''.s1-buttonRows .s1-buttonRow'' d = [] \<longrightarrow>
      length (extractProduct_variants ch d) \<le> 1 \<and>
      length (extractProduct_variants_dynamic ch d) \<le> 1 \<and>
      (\<forall>v \<in> set (extractProduct_variants ch d).
         in_stock v = False \<and> color v = [] \<and> art_no v = []) \<and>
      (\<forall>v \<in> set (extractProduct_variants_dynamic ch d).
         map_of v (js ''in_stock'') = Some (js ''false'') \<and>
         map_of v (js ''color'') = None \<and> map_of v (js ''art_no'') = None)) \<and>
   (select ch ''.s1-buttonRows .s1-buttonRow'' d \<noteq> [] \<longrightarrow>
      map in_stock (extractProduct_variants ch d)
        = map (stockStyle ch) (select ch ''.s1-buttonRows .s1-buttonRow'' d) \<and>
      map (\<lambda>v. map_of v (js ''in_stock'')) (extractProduct_variants_dynamic ch d)
        = map (\<lambda>row. Some (if stockStyle ch row then js ''true'' else js ''false''))
            (select ch ''.s1-buttonRows .s1-buttonRow'' d))"
proof (cases "select ch ''.s1-buttonRows .s1-buttonRow'' d = []")
  case True
  then show ?thesis by (simp add: fallback_static fallback_dynamic Let_def js_def)
next
  case False
  then show ?thesis
    by (simp add: extractProduct_variants_def extractProduct_variants_dynamic_def Let_def
        in_stock_static_row in_stock_dynamic_row comp_def)
qed

text \<open>
  A page with no variant row, a main price, and an element of class \<open>s1-buttonRow-wh\<close>
  whose style is the stock colour: the one variant is not in stock.
\<close>

definition stockIndicatorPage :: page where
  "stockIndicatorPage =
     [(''.price .priceCombTaxValueNumber'', [textElem (js ''500 '' @ [8364])]),
      (''.s1-buttonRow-wh'', [Elem (js ''In stock'') None [(''style'', js ''color: #228B22'')] [] []])]"

lemma stock_rows:
  "select (tableCheerio stockIndicatorPage) ''.s1-buttonRows .s1-buttonRow'' stockIndicatorPage = []"
  by (simp add: tableCheerio_def stockIndicatorPage_def)

lemma stock_static:
  "extractProduct_variants (tableCheerio stockIndicatorPage) stockIndicatorPage =
     [\<lparr>color = [], art_no = [], price_incl_vat = js ''500 '' @ [8364],
       price_excl_vat = js ''413.22'', in_stock = False, status_text = []\<rparr>]"
proof -
  have "cleanText (firstText (tableCheerio stockIndicatorPage) ''.price .priceCombTaxValueNumber''
          stockIndicatorPage) = js ''500 '' @ [8364]"
    by (simp add: cleanText_def firstText_def tableCheerio_def stockIndicatorPage_def textElem_def
        trim_def js_def isWhiteSpace_def)
  moreover have "js ''500 '' @ [8364] \<noteq> []" by (simp add: js_def)
  ultimately show ?thesis
    by (simp add: fallback_static [OF stock_rows] excl_500)
qed

theorem extractProduct_fallback_not_in_stock_witness:
  "select (tableCheerio stockIndicatorPage) ''.s1-buttonRows .s1-buttonRow'' stockIndicatorPage = [] \<and>
   firstAttr (tableCheerio stockIndicatorPage) ''.s1-buttonRow-wh'' ''style'' stockIndicatorPage
     = Some (js ''color: #228B22'') \<and>
   extractProduct_variants (tableCheerio stockIndicatorPage) stockIndicatorPage =
     [\<lparr>color = [], art_no = [], price_incl_vat = js ''500 '' @ [8364],
       price_excl_vat = js ''413.22'', in_stock = False, status_text = []\<rparr>] \<and>
   length (extractProduct_variants (tableCheerio stockIndicatorPage) stockIndicatorPage) \<le> 1 \<and>
   in_stock (hd (extractProduct_variants (tableCheerio stockIndicatorPage) stockIndicatorPage))
     = False"
proof -
  have "firstAttr (tableCheerio stockIndicatorPage) ''.s1-buttonRow-wh'' ''style'' stockIndicatorPage
     = Some (js ''color: #228B22'')"
    by (simp add: firstAttr_def tableCheerio_def stockIndicatorPage_def)
  moreover have "hd (extractProduct_variants (tableCheerio stockIndicatorPage) stockIndicatorPage)
      \<in> set (extractProduct_variants (tableCheerio stockIndicatorPage) stockIndicatorPage)"
    by (simp add: stock_static)
  ultimately show ?thesis
    using extractProduct_fallback_not_in_stock [of "tableCheerio stockIndicatorPage" stockIndicatorPage]
      stock_rows stock_static
    by blast
qed

section \<open>utils: runInBatches\<close>

text \<open>
  The processor is effectful and its promise may reject: like the operation of
  \<open>withRetry\<close> it is a function from the world to an outcome and the next world. A task
  is modelled as one step, taken at the moment it completes: the processor's effect, then
  \<open>completed++\<close> and the callback \<open>onItemDone\<close> when it resolved. The tasks of a window
  complete in the order of their finish times \<open>finishTime k\<close> (\<open>k\<close> the index of the item in
  \<open>items\<close>), which is a parameter: every order of completion inside a window is given by
  some \<open>finishTime\<close>. The model keeps, besides what the program computes, the list of
  settlements in the order they happened, each with the index of its item.
\<close>

type_synonym ('e, 'r) settlements = "(nat \<times> ('e + 'r)) list"

definition settle ::
  "('t \<Rightarrow> 's \<Rightarrow> ('e + 'r) \<times> 's) \<Rightarrow> (nat \<Rightarrow> nat \<Rightarrow> 't \<Rightarrow> 'r \<Rightarrow> 's \<Rightarrow> 's) \<Rightarrow> nat \<Rightarrow>
   ('e, 'r) settlements \<times> nat \<times> 's \<Rightarrow> nat \<times> 't \<Rightarrow> ('e, 'r) settlements \<times> nat \<times> 's" where
  "settle processor onItemDone totalCount st task =
     (case st of (settled, completed, s) \<Rightarrow>
      case processor (snd task) s of
        (Inl err, s1) \<Rightarrow> (settled @ [(fst task, Inl err)], completed, s1)
      | (Inr result, s1) \<Rightarrow>
          (settled @ [(fst task, Inr result)], completed + 1,
           onItemDone (completed + 1) totalCount (snd task) result s1))"

text \<open>One window: its tasks settle in the order of their finish times.\<close>

definition runWindow ::
  "('t \<Rightarrow> 's \<Rightarrow> ('e + 'r) \<times> 's) \<Rightarrow> (nat \<Rightarrow> nat \<Rightarrow> 't \<Rightarrow> 'r \<Rightarrow> 's \<Rightarrow> 's) \<Rightarrow> (nat \<Rightarrow> nat) \<Rightarrow>
   nat \<Rightarrow> (nat \<times> 't) list \<Rightarrow> nat \<Rightarrow> 's \<Rightarrow> ('e, 'r) settlements \<times> nat \<times> 's" where
  "runWindow processor onItemDone finishTime totalCount window completed s =
     foldl (settle processor onItemDone totalCount) ([], completed, s)
       (sort_key (\<lambda>task. finishTime (fst task)) window)"

text \<open>
  \<open>Promise.all\<close> of the window's promises: it rejects with the first rejection, and
  otherwise resolves to the values in the order of the promises, whatever the order of
  completion. \<open>None\<close> would be a promise that never settles.
\<close>

definition resolved :: "('e, 'r) settlements \<Rightarrow> nat \<Rightarrow> 'r option" where
  "resolved settled k = (case map_of settled k of Some (Inr r) \<Rightarrow> Some r | other \<Rightarrow> None)"

definition promiseAll :: "('e, 'r) settlements \<Rightarrow> nat list \<Rightarrow> ('e + 'r list) option" where
  "promiseAll settled ks =
     (case find (\<lambda>entry. isl (snd entry)) settled of
        Some (k, Inl err) \<Rightarrow> Some (Inl err)
      | other \<Rightarrow> map_option Inr (those (map (resolved settled) ks)))"

text \<open>
  The \<open>for\<close> loop, with its variables \<open>i\<close>, \<open>results\<close> and \<open>completed\<close>. With a
  concurrency of 0 the index never advances and the loop does not end, so the loop is a
  partial function: \<open>None\<close> is a call that does not return.
\<close>

partial_function (option) batchLoop ::
  "(nat \<Rightarrow> 's \<Rightarrow> 's) \<Rightarrow> ('t \<Rightarrow> 's \<Rightarrow> ('e + 'r) \<times> 's) \<Rightarrow> (nat \<Rightarrow> nat \<Rightarrow> 't \<Rightarrow> 'r \<Rightarrow> 's \<Rightarrow> 's) \<Rightarrow>
   (nat \<Rightarrow> nat) \<Rightarrow> 't list \<Rightarrow> nat \<Rightarrow> nat \<Rightarrow>
   nat \<Rightarrow> 'r list \<Rightarrow> nat \<Rightarrow> ('e, 'r) settlements \<Rightarrow> 's \<Rightarrow>
   (('e + 'r list) \<times> ('e, 'r) settlements \<times> 's) option" where
  "batchLoop sleepFor processor onItemDone finishTime items concurrency delayMs
     i results completed settled s =
     (if i < length items then
        (let batch = take concurrency (drop i items);
             window = zip [i ..< i + length batch] batch;
             ran = runWindow processor onItemDone finishTime (length items) window completed s;
             settled1 = settled @ fst ran;
             s1 = snd (snd ran)
         in case promiseAll (fst ran) (map fst window) of
              None \<Rightarrow> None
            | Some (Inl err) \<Rightarrow> Some (Inl err, settled1, s1)
            | Some (Inr batchResults) \<Rightarrow>
                batchLoop sleepFor processor onItemDone finishTime items concurrency delayMs
                  (i + concurrency) (results @ batchResults) (fst (snd ran)) settled1
                  (if i + concurrency < length items then sleepFor delayMs s1 else s1))
      else Some (Inr results, settled, s))"

definition runInBatches ::
  "(nat \<Rightarrow> 's \<Rightarrow> 's) \<Rightarrow> (nat \<Rightarrow> nat) \<Rightarrow> 't list \<Rightarrow> nat \<Rightarrow> nat \<Rightarrow>
   ('t \<Rightarrow> 's \<Rightarrow> ('e + 'r) \<times> 's) \<Rightarrow> (nat \<Rightarrow> nat \<Rightarrow> 't \<Rightarrow> 'r \<Rightarrow> 's \<Rightarrow> 's) \<Rightarrow> 's \<Rightarrow>
   (('e + 'r list) \<times> ('e, 'r) settlements \<times> 's) option" where
  "runInBatches sleepFor finishTime items concurrency delayMs processor onItemDone s =
     batchLoop sleepFor processor onItemDone finishTime items concurrency delayMs 0 [] 0 [] s"

lemma settle_fold:
  "\<exists>new c' s'.
     foldl (settle processor onItemDone totalCount) (settled0, c0, s0) tasks
       = (settled0 @ new, c', s') \<and>
     list_all2 (\<lambda>entry task. fst entry = fst task \<and>
                  (\<exists>st. snd entry = fst (processor (snd task) st))) new tasks"
proof (induction tasks arbitrary: settled0 c0 s0)
  case Nil
  show ?case by simp
next
  case (Cons task tasks)
  obtain out s1 where p: "processor (snd task) s0 = (out, s1)"
    by (cases "processor (snd task) s0")
  then have o: "out = fst (processor (snd task) s0)" by simp
  obtain c1 s2 where st: "settle processor onItemDone totalCount (settled0, c0, s0) task
      = (settled0 @ [(fst task, out)], c1, s2)"
    using p by (cases out) (simp_all add: settle_def)
  from Cons.IH [of "settled0 @ [(fst task, out)]" c1 s2]
  obtain new c' s' where
    f: "foldl (settle processor onItemDone totalCount) (settled0 @ [(fst task, out)], c1, s2) tasks
          = ((settled0 @ [(fst task, out)]) @ new, c', s')"
    and l: "list_all2 (\<lambda>entry task. fst entry = fst task \<and>
                  (\<exists>st. snd entry = fst (processor (snd task) st))) new tasks"
    by blast
  have "foldl (settle processor onItemDone totalCount) (settled0, c0, s0) (task # tasks)
      = (settled0 @ ((fst task, out) # new), c', s')"
    using st f by simp
  moreover have "list_all2 (\<lambda>entry task. fst entry = fst task \<and>
                  (\<exists>st. snd entry = fst (processor (snd task) st))) ((fst task, out) # new) (task # tasks)"
    using l o by auto
  ultimately show ?case by blast
qed

lemma runWindow_settles:
  "\<exists>wlog c' s'.
     runWindow processor onItemDone finishTime totalCount window completed s = (wlog, c', s') \<and>
     list_all2 (\<lambda>entry task. fst entry = fst task \<and>
                  (\<exists>st. snd entry = fst (processor (snd task) st)))
       wlog (sort_key (\<lambda>task. finishTime (fst task)) window)"
  using settle_fold [of processor onItemDone totalCount "[]" completed s
          "sort_key (\<lambda>task. finishTime (fst task)) window"]
  by (simp add: runWindow_def)

lemma those_map_Some:
  "\<forall>x \<in> set xs. f x = Some (g x) \<Longrightarrow> those (map f xs) = Some (map g xs)"
  by (induction xs) simp_all

lemma find_rejected:
  "find (\<lambda>entry. isl (snd entry)) settled = Some found \<Longrightarrow>
   \<exists>k err. found = (k, Inl err) \<and> (k, Inl err) \<in> set settled"
proof -
  assume a: "find (\<lambda>entry. isl (snd entry)) settled = Some found"
  then have "isl (snd found)" and "found \<in> set settled"
    by (auto simp: find_Some_iff)
  then show ?thesis by (cases found; cases "snd found") auto
qed

lemma promiseAll_cases:
  assumes d: "distinct (map fst wlog)" and sub: "set ks \<subseteq> fst ` set wlog"
  shows "(\<exists>err k. promiseAll wlog ks = Some (Inl err) \<and> (k, Inl err) \<in> set wlog) \<or>
         (\<exists>rs. promiseAll wlog ks = Some (Inr rs) \<and> length rs = length ks \<and>
               (\<forall>j < length ks. (ks ! j, Inr (rs ! j)) \<in> set wlog) \<and>
               (\<forall>entry \<in> set wlog. \<not> isl (snd entry)))"
proof (cases "find (\<lambda>entry. isl (snd entry)) wlog")
  case (Some found)
  then obtain k err where "found = (k, Inl err)" "(k, Inl err) \<in> set wlog"
    using find_rejected by blast
  with Some have "promiseAll wlog ks = Some (Inl err)" by (simp add: promiseAll_def)
  with \<open>(k, Inl err) \<in> set wlog\<close> show ?thesis by blast
next
  case None
  then have all: "\<forall>entry \<in> set wlog. \<not> isl (snd entry)" by (auto simp: find_None_iff)
  define g where "g k = projr (the (map_of wlog k))" for k
  have res: "\<forall>k \<in> set ks. resolved wlog k = Some (g k) \<and> (k, Inr (g k)) \<in> set wlog"
  proof
    fix k assume "k \<in> set ks"
    with sub obtain out where m: "(k, out) \<in> set wlog" by force
    with all have "\<not> isl out" by force
    then obtain r where r: "out = Inr r" by (cases out) simp_all
    from d m have "map_of wlog k = Some out" by simp
    with r m show "resolved wlog k = Some (g k) \<and> (k, Inr (g k)) \<in> set wlog"
      by (simp add: resolved_def g_def)
  qed
  then have "those (map (resolved wlog) ks) = Some (map g ks)"
    by (simp add: those_map_Some)
  with None have "promiseAll wlog ks = Some (Inr (map g ks))" by (simp add: promiseAll_def)
  moreover have "\<forall>j < length ks. (ks ! j, Inr (map g ks ! j)) \<in> set wlog"
    using res by simp
  ultimately show ?thesis using all by auto
qed


lemma list_all2_keys:
  "list_all2 (\<lambda>entry task. fst entry = fst task \<and> Q entry task) new tasks \<Longrightarrow>
   map fst new = map fst tasks"
  by (induction rule: list_all2_induct) simp_all

lemma list_all2_member:
  "list_all2 P xs ys \<Longrightarrow> x \<in> set xs \<Longrightarrow> \<exists>y \<in> set ys. P x y"
  by (induction rule: list_all2_induct) auto

lemma window_items:
  assumes "task \<in> set (zip [i ..< i + length (take c (drop i items))] (take c (drop i items)))"
  shows "snd task = items ! fst task \<and> i \<le> fst task \<and> fst task < length items"
proof -
  let ?batch = "take c (drop i items)"
  from assms obtain j where j: "j < length ?batch"
    and t: "task = ([i ..< i + length ?batch] ! j, ?batch ! j)"
    by (auto simp: in_set_zip)
  from j have jc: "j < c" and ji: "i + j < length items" by auto
  from j have "[i ..< i + length ?batch] ! j = i + j" by simp
  moreover from jc ji have "?batch ! j = items ! (i + j)" by simp
  ultimately show ?thesis using t ji by simp
qed

lemma window_settlements:
  assumes "i < length items"
  shows "\<exists>wlog c' s'.
     runWindow processor onItemDone finishTime totalCount
       (zip [i ..< i + length (take c (drop i items))] (take c (drop i items))) completed s
       = (wlog, c', s') \<and>
     distinct (map fst wlog) \<and>
     set (map fst wlog) = {i ..< i + length (take c (drop i items))} \<and>
     (\<forall>entry \<in> set wlog. \<exists>st. snd entry = fst (processor (items ! fst entry) st))"
proof -
  let ?batch = "take c (drop i items)"
  let ?window = "zip [i ..< i + length ?batch] ?batch"
  let ?order = "sort_key (\<lambda>task. finishTime (fst task)) ?window"
  let ?P = "\<lambda>entry task. fst entry = fst task \<and> (\<exists>st. snd entry = fst (processor (snd task) st))"
  obtain wlog c' s' where
    run: "runWindow processor onItemDone finishTime totalCount ?window completed s = (wlog, c', s')"
    and all2: "list_all2 ?P wlog ?order"
    using runWindow_settles [of processor onItemDone finishTime totalCount ?window completed s]
    by blast
  have keys: "map fst wlog = map fst ?order" using all2 by (rule list_all2_keys)
  have fw: "map fst ?window = [i ..< i + length ?batch]" by simp
  have "distinct (map fst ?window)" unfolding fw by simp
  then have "distinct ?window \<and> inj_on fst (set ?window)"
    by (rule distinct_map [THEN iffD1])
  then have "distinct ?order \<and> inj_on fst (set ?order)"
    by (simp only: distinct_sort set_sort)
  then have "distinct (map fst ?order)"
    by (rule distinct_map [THEN iffD2])
  then have 1: "distinct (map fst wlog)" by (simp add: keys)
  have "set (map fst ?order) = fst ` set ?order" by (simp only: set_map)
  also have "\<dots> = fst ` set ?window" by (simp only: set_sort)
  also have "\<dots> = set (map fst ?window)" by (simp only: set_map)
  also have "\<dots> = {i ..< i + length ?batch}" unfolding fw by simp
  finally have 2: "set (map fst wlog) = {i ..< i + length ?batch}"
    unfolding keys .
  have 3: "\<forall>entry \<in> set wlog. \<exists>st. snd entry = fst (processor (items ! fst entry) st)"
  proof
    fix entry assume "entry \<in> set wlog"
    with all2 obtain task where t: "task \<in> set ?order" and p: "?P entry task"
      using list_all2_member [of ?P wlog ?order entry] by blast
    from t have "task \<in> set ?window" by simp
    then have "snd task = items ! fst task" using window_items by blast
    with p show "\<exists>st. snd entry = fst (processor (items ! fst entry) st)" by auto
  qed
  from run 1 2 3 show ?thesis by blast
qed

text \<open>
  What C4 says of a run that ended with the outcome \<open>out\<close> and the settlements
  \<open>settled\<close>: every settlement is the outcome of the processor on the item of its index;
  when the run returned \<open>results\<close>, there is one result for each item, each index settled
  exactly once, and the result at an index is what the task of that index resolved to;
  when the run threw, what it threw is the rejection of one of the tasks.
\<close>

definition settledRight ::
  "('t \<Rightarrow> 's \<Rightarrow> ('e + 'r) \<times> 's) \<Rightarrow> 't list \<Rightarrow> ('e + 'r list) \<Rightarrow> (nat \<times> ('e + 'r)) list \<Rightarrow> bool" where
  "settledRight processor items out settled \<longleftrightarrow>
     (\<forall>entry \<in> set settled.
        fst entry < length items \<and> (\<exists>st. snd entry = fst (processor (items ! fst entry) st))) \<and>
     (case out of
        Inr results \<Rightarrow>
          length results = length items \<and> distinct (map fst settled) \<and>
          set (map fst settled) = {..<length items} \<and>
          (\<forall>entry \<in> set settled. snd entry = Inr (results ! fst entry))
      | Inl err \<Rightarrow> Inl err \<in> snd ` set settled)"

lemma window_keys:
  "map fst (zip [i ..< i + length (take c (drop i items))] (take c (drop i items)))
     = [i ..< i + length (take c (drop i items))]"
  by simp

lemma unfold_done:
  assumes "\<not> i < length items"
  shows "batchLoop sleepFor processor onItemDone finishTime items c delayMs
             i results completed settled s = Some (Inr results, settled, s)"
  apply (subst batchLoop.simps)
  using assms
  apply simp
  done

lemma unfold_rejected:
  assumes "i < length items"
    and "runWindow processor onItemDone finishTime (length items)
           (zip [i ..< i + length (take c (drop i items))] (take c (drop i items))) completed s
              = (wlog, c', s1)"
    and "promiseAll wlog [i ..< i + length (take c (drop i items))] = Some (Inl err)"
  shows "batchLoop sleepFor processor onItemDone finishTime items c delayMs
             i results completed settled s = Some (Inl err, settled @ wlog, s1)"
  apply (subst batchLoop.simps)
  apply (simp only: assms Let_def if_True fst_conv snd_conv window_keys option.case sum.case)
  done

lemma unfold_resolved:
  assumes "i < length items"
    and "runWindow processor onItemDone finishTime (length items)
           (zip [i ..< i + length (take c (drop i items))] (take c (drop i items))) completed s
              = (wlog, c', s1)"
    and "promiseAll wlog [i ..< i + length (take c (drop i items))] = Some (Inr rs)"
  shows "batchLoop sleepFor processor onItemDone finishTime items c delayMs
             i results completed settled s =
         batchLoop sleepFor processor onItemDone finishTime items c delayMs
             (i + c) (results @ rs) c' (settled @ wlog)
             (if i + c < length items then sleepFor delayMs s1 else s1)"
  apply (subst batchLoop.simps)
  apply (simp only: assms Let_def if_True fst_conv snd_conv window_keys option.case sum.case)
  done

lemma batchLoop_returns:
  assumes c: "1 \<le> c"
    and len: "length results = min i (length items)"
    and dist: "distinct (map fst settled)"
    and keys: "set (map fst settled) = {..<min i (length items)}"
    and vals: "\<forall>entry \<in> set settled. snd entry = Inr (results ! fst entry) \<and>
                 (\<exists>st. snd entry = fst (processor (items ! fst entry) st))"
  shows "\<exists>out settled' s'.
           batchLoop sleepFor processor onItemDone finishTime items c delayMs
             i results completed settled s = Some (out, settled', s') \<and>
           settledRight processor items out settled'"
  using len dist keys vals
proof (induction "length items - i" arbitrary: i results completed settled s rule: less_induct)
  case less
  note len = less.prems(1) and dist = less.prems(2) and keys = less.prems(3)
    and vals = less.prems(4)
  show ?case
  proof (cases "i < length items")
    case False
    then have m: "min i (length items) = length items" by simp
    have "batchLoop sleepFor processor onItemDone finishTime items c delayMs
             i results completed settled s = Some (Inr results, settled, s)"
      using False by (rule unfold_done)
    moreover have "settledRight processor items (Inr results) settled"
    proof -
      have r: "\<forall>entry \<in> set settled. fst entry < length items"
      proof
        fix entry assume "entry \<in> set settled"
        then have "fst entry \<in> set (map fst settled)" by simp
        with keys m show "fst entry < length items" by simp
      qed
      have a: "\<forall>entry \<in> set settled.
          fst entry < length items \<and> (\<exists>st. snd entry = fst (processor (items ! fst entry) st))"
        using r vals by blast
      have b: "length results = length items" using len m by simp
      have k: "set (map fst settled) = {..<length items}" using keys m by simp
      have v: "\<forall>entry \<in> set settled. snd entry = Inr (results ! fst entry)"
        using vals by blast
      show ?thesis
        unfolding settledRight_def sum.case using a b dist k v by blast
    qed
    ultimately show ?thesis by blast
  next
    case True
    then have m: "min i (length items) = i" by simp
    let ?batch = "take c (drop i items)"
    let ?ks = "[i ..< i + length ?batch]"
    let ?window = "zip ?ks ?batch"
    have lb: "length ?batch = min c (length items - i)" by simp
    have fw: "map fst ?window = ?ks" by simp
    obtain wlog c' s1 where
      run: "runWindow processor onItemDone finishTime (length items) ?window completed s
              = (wlog, c', s1)"
      and wd: "distinct (map fst wlog)"
      and wk: "set (map fst wlog) = {i ..< i + length ?batch}"
      and wv: "\<forall>entry \<in> set wlog. \<exists>st. snd entry = fst (processor (items ! fst entry) st)"
      using window_settlements [OF True, of processor onItemDone finishTime "length items" c
              completed s]
      by blast
    have sub: "set ?ks \<subseteq> fst ` set wlog" using wk by simp
    have inrange: "\<forall>entry \<in> set (settled @ wlog). fst entry < length items"
    proof
      fix entry assume "entry \<in> set (settled @ wlog)"
      then consider "entry \<in> set settled" | "entry \<in> set wlog" by auto
      then show "fst entry < length items"
      proof cases
        case 1
        then have "fst entry \<in> set (map fst settled)" by simp
        with keys m True show ?thesis by simp
      next
        case 2
        then have "fst entry \<in> set (map fst wlog)" by simp
        with wk lb True show ?thesis by auto
      qed
    qed
    have outcomes: "\<forall>entry \<in> set (settled @ wlog).
        \<exists>st. snd entry = fst (processor (items ! fst entry) st)"
      using vals wv by auto
    from promiseAll_cases [OF wd sub]
    consider (rejected) err k where "promiseAll wlog ?ks = Some (Inl err)" "(k, Inl err) \<in> set wlog"
      | (resolved) rs where "promiseAll wlog ?ks = Some (Inr rs)" "length rs = length ?ks"
          "\<forall>j < length ?ks. (?ks ! j, Inr (rs ! j)) \<in> set wlog"
      by blast
    then show ?thesis
    proof cases
      case rejected
      have "batchLoop sleepFor processor onItemDone finishTime items c delayMs
             i results completed settled s = Some (Inl err, settled @ wlog, s1)"
        using True run rejected(1) by (rule unfold_rejected)
      moreover have "settledRight processor items (Inl err) (settled @ wlog)"
      proof -
        have "Inl err \<in> snd ` set (settled @ wlog)"
          using rejected(2) by force
        then show ?thesis
          unfolding settledRight_def sum.case using inrange outcomes by blast
      qed
      ultimately show ?thesis by blast
    next
      case resolved
      let ?s2 = "if i + c < length items then sleepFor delayMs s1 else s1"
      have step: "batchLoop sleepFor processor onItemDone finishTime items c delayMs
             i results completed settled s =
           batchLoop sleepFor processor onItemDone finishTime items c delayMs
             (i + c) (results @ rs) c' (settled @ wlog) ?s2"
        using True run resolved(1) by (rule unfold_resolved)
      have m': "min (i + c) (length items) = i + length ?batch" using True lb by auto
      have lr: "length results = i" using len m by simp
      have l1: "length (results @ rs) = min (i + c) (length items)"
        using lr resolved(2) m' by simp
      have disj: "set (map fst settled) \<inter> set (map fst wlog) = {}"
        unfolding keys wk m by auto
      have d1: "distinct (map fst (settled @ wlog))"
        using dist wd disj by simp
      have k1: "set (map fst (settled @ wlog)) = {..<min (i + c) (length items)}"
      proof -
        have "set (map fst (settled @ wlog)) = {..<i} \<union> {i ..< i + length ?batch}"
          using keys wk m by simp
        also have "\<dots> = {..<i + length ?batch}" by auto
        finally show ?thesis using m' by simp
      qed
      have v1: "\<forall>entry \<in> set (settled @ wlog).
                  snd entry = Inr ((results @ rs) ! fst entry) \<and>
                  (\<exists>st. snd entry = fst (processor (items ! fst entry) st))"
      proof
        fix entry assume e: "entry \<in> set (settled @ wlog)"
        then consider "entry \<in> set settled" | "entry \<in> set wlog" by auto
        then have "snd entry = Inr ((results @ rs) ! fst entry)"
        proof cases
          case 1
          then have "fst entry \<in> set (map fst settled)" by simp
          with keys m have "fst entry < i" by simp
          with lr have "(results @ rs) ! fst entry = results ! fst entry"
            by (simp add: nth_append)
          with vals 1 show ?thesis by simp
        next
          case 2
          then have "fst entry \<in> set (map fst wlog)" by simp
          with wk have r: "i \<le> fst entry" "fst entry < i + length ?batch" by simp_all
          define j where "j = fst entry - i"
          with r have jl: "j < length ?batch" and ji: "i + j = fst entry" by auto
          then have j: "j < length ?ks" "?ks ! j = fst entry" by (simp_all del: length_take)
          with resolved(3) have "(fst entry, Inr (rs ! j)) \<in> set wlog" by metis
          moreover from 2 have "(fst entry, snd entry) \<in> set wlog" by simp
          ultimately have "snd entry = Inr (rs ! j)"
            using wd by (meson eq_key_imp_eq_value)
          moreover have "(results @ rs) ! fst entry = rs ! j"
            using r lr j_def by (simp add: nth_append)
          ultimately show ?thesis by simp
        qed
        with outcomes e show "snd entry = Inr ((results @ rs) ! fst entry) \<and>
                  (\<exists>st. snd entry = fst (processor (items ! fst entry) st))" by blast
      qed
      have "length items - (i + c) < length items - i" using True c by simp
      from less.hyps [OF this l1 d1 k1 v1] step show ?thesis by simp
    qed
  qed
qed

text \<open>
  C4. For every list of items, every concurrency of at least 1, every processor and every
  order of completion inside the windows, \<open>runInBatches\<close> returns, and what it returns is
  right in the sense above: one result for each item, the result at index \<open>i\<close> being the
  outcome of the task of \<open>items[i]\<close> (or, when a task rejects, the rejection of a task).
\<close>

theorem runInBatches_input_order:
  assumes "1 \<le> concurrency"
  shows "\<exists>out settled s'.
           runInBatches sleepFor finishTime items concurrency delayMs processor onItemDone s
             = Some (out, settled, s') \<and>
           settledRight processor items out settled"
  unfolding runInBatches_def
  by (rule batchLoop_returns [OF assms]) simp_all

text \<open>
  Five items, windows of two, the later item of each window finishing first: the
  settlements are in the order 1, 0, 3, 2, 4 and the results in the order of the items.
  The world records the item of each processor call, the count passed to each callback
  and the milliseconds of each sleep.
\<close>

declare batchLoop.simps [code]

definition tenfold :: "nat \<Rightarrow> nat list \<Rightarrow> (unit + nat) \<times> nat list" where
  "tenfold item s = (Inr (item * 10), s @ [item])"

definition noteDone :: "nat \<Rightarrow> nat \<Rightarrow> nat \<Rightarrow> nat \<Rightarrow> nat list \<Rightarrow> nat list" where
  "noteDone completed totalCount item result s = s @ [completed]"

definition noteSleep :: "nat \<Rightarrow> nat list \<Rightarrow> nat list" where
  "noteSleep ms s = s @ [ms]"

lemma sample_run:
  "runInBatches noteSleep (\<lambda>k. 10 - k) [1, 2, 3, 4, 5] 2 500 tenfold noteDone [] =
     Some (Inr [10, 20, 30, 40, 50],
           [(1, Inr 20), (0, Inr 10), (3, Inr 40), (2, Inr 30), (4, Inr 50)],
           [2, 1, 1, 2, 500, 4, 3, 3, 4, 500, 5, 5])"
  by code_simp

theorem runInBatches_input_order_witness:
  "runInBatches noteSleep (\<lambda>k. 10 - k) [1, 2, 3, 4, 5] 2 500 tenfold noteDone [] =
     Some (Inr [10, 20, 30, 40, 50],
           [(1, Inr 20), (0, Inr 10), (3, Inr 40), (2, Inr 30), (4, Inr 50)],
           [2, 1, 1, 2, 500, 4, 3, 3, 4, 500, 5, 5]) \<and>
   settledRight tenfold [1, 2, 3, 4, 5] (Inr [10, 20, 30, 40, 50])
     [(1, Inr 20), (0, Inr 10), (3, Inr 40), (2, Inr 30), (4, Inr 50)]"
proof -
  have "(1::nat) \<le> 2" by simp
  from runInBatches_input_order [OF this, of noteSleep "\<lambda>k. 10 - k" "[1, 2, 3, 4, 5]" 500
         tenfold noteDone "[]"]
  show ?thesis unfolding sample_run by simp
qed

text \<open>
  The bound on the concurrency is needed: with a concurrency of 0 and at least one item,
  every turn of the loop runs an empty window and sleeps, and the call never returns.
\<close>

lemma promiseAll_empty: "promiseAll [] [] = Some (Inr [])"
  by (simp add: promiseAll_def)

lemma runWindow_empty: "runWindow processor onItemDone finishTime n [] completed s = ([], completed, s)"
  by (simp add: runWindow_def)

lemma batchLoop_concurrency_0_aux:
  assumes "batchLoop sleepFor processor onItemDone finishTime items c delayMs
             i results completed settled s = Some y"
  shows "\<not> (c = 0 \<and> i < length items)"
  apply (rule batchLoop.raw_induct
    [where P = "\<lambda>sleepFor processor onItemDone finishTime items c delayMs
                  i results completed settled s y. \<not> (c = 0 \<and> i < length items)",
     OF _ assms])
  apply (rule notI)
  apply (simp add: Let_def promiseAll_empty runWindow_empty)
  apply blast
  done

lemma runInBatches_concurrency_0:
  "items \<noteq> [] \<Longrightarrow>
   runInBatches sleepFor finishTime items 0 delayMs processor onItemDone s = None"
proof (rule ccontr)
  assume ne: "items \<noteq> []"
  assume "runInBatches sleepFor finishTime items 0 delayMs processor onItemDone s \<noteq> None"
  then obtain y where "batchLoop sleepFor processor onItemDone finishTime items 0 delayMs
      0 [] 0 [] s = Some y"
    by (auto simp: runInBatches_def)
  from batchLoop_concurrency_0_aux [OF this] ne show False by simp
qed

end
